theory Spec2Isabelle
  imports Complex_Main "HOL-Library.Word" "HOL-Library.Sublist"
begin

section \<open>Strings\<close>

text \<open>
  A JavaScript string is a sequence of UTF-16 code units: \<open>length\<close>, \<open>slice\<close> and the
  regular expressions of the sources (none carries the \<open>u\<close> flag) all work on code
  units. \<open>js\<close> turns an ASCII literal into such a string.
\<close>

type_synonym jschar = "16 word"
type_synonym jsstring = "jschar list"

definition js :: "string \<Rightarrow> jsstring" where
  "js s = map of_char s"

definition SLASH :: jschar where "SLASH = 0x2F"
definition UNDERSCORE :: jschar where "UNDERSCORE = 0x5F"
definition DASH :: jschar where "DASH = 0x2D"
definition DOT :: jschar where "DOT = 0x2E"

text \<open>The regular expression class \<open>\s\<close> of ECMAScript (white space and line terminators).\<close>

definition isSpace :: "jschar \<Rightarrow> bool" where
  "isSpace c = (let n = unat c in
     (9 \<le> n \<and> n \<le> 13) \<or> n = 0x20 \<or> n = 0xA0 \<or> n = 0x1680 \<or>
     (0x2000 \<le> n \<and> n \<le> 0x200A) \<or> n = 0x2028 \<or> n = 0x2029 \<or>
     n = 0x202F \<or> n = 0x205F \<or> n = 0x3000 \<or> n = 0xFEFF)"

text \<open>The class \<open>[a-zA-Z0-9\-_.]\<close>.\<close>

definition isSafeChar :: "jschar \<Rightarrow> bool" where
  "isSafeChar c = (let n = unat c in
     (0x61 \<le> n \<and> n \<le> 0x7A) \<or> (0x41 \<le> n \<and> n \<le> 0x5A) \<or> (0x30 \<le> n \<and> n \<le> 0x39) \<or>
     n = 0x2D \<or> n = 0x5F \<or> n = 0x2E)"

text \<open>\<open>s.replace(/\s+/g, r)\<close>: every maximal run of white space becomes one \<open>r\<close>.\<close>

function replaceSpaceRuns :: "jschar \<Rightarrow> jsstring \<Rightarrow> jsstring" where
  "replaceSpaceRuns r [] = []"
| "replaceSpaceRuns r (c # cs) =
     (if isSpace c then r # replaceSpaceRuns r (dropWhile isSpace cs)
      else c # replaceSpaceRuns r cs)"
  by pat_completeness auto
termination
  by (relation "measure (\<lambda>(r, s). length s)") (auto simp: less_Suc_eq_le length_dropWhile_le)

text \<open>\<open>s.replace(/[^a-zA-Z0-9\-_.]/g, "_")\<close>: every other code unit becomes an underscore.\<close>

definition replaceUnsafe :: "jsstring \<Rightarrow> jsstring" where
  "replaceUnsafe s = map (\<lambda>c. if isSafeChar c then c else UNDERSCORE) s"

text \<open>\<open>s.replace(/^_+|_+$/g, "")\<close>: the leading and the trailing run of underscores go.\<close>

definition dropTrailing :: "jschar \<Rightarrow> jsstring \<Rightarrow> jsstring" where
  "dropTrailing u s = rev (dropWhile (\<lambda>c. c = u) (rev s))"

definition trimUnderscores :: "jsstring \<Rightarrow> jsstring" where
  "trimUnderscores s = dropTrailing UNDERSCORE (dropWhile (\<lambda>c. c = UNDERSCORE) s)"

text \<open>
  \<open>path.basename\<close> of Node on a POSIX host (the server runs on Linux): trailing slashes
  are ignored, the result is what follows the last remaining slash.
\<close>

definition basename :: "jsstring \<Rightarrow> jsstring" where
  "basename p = rev (takeWhile (\<lambda>c. c \<noteq> SLASH) (dropWhile (\<lambda>c. c = SLASH) (rev p)))"

subsection \<open>The filename sanitizers\<close>

text \<open>\<open>sanitizeFilename\<close> of \<open>utils/file-utils.ts\<close>.\<close>

definition sanitizeFilename :: "jsstring \<Rightarrow> jsstring" where
  "sanitizeFilename name =
     (if name = [] then []
      else take 200 (trimUnderscores (replaceUnsafe (replaceSpaceRuns UNDERSCORE (basename name)))))"

text \<open>\<open>_sanitizeFilenameFallback\<close> of \<open>utils/storage-util.ts\<close>.\<close>

definition sanitizeFilenameFallback :: "jsstring \<Rightarrow> jsstring" where
  "sanitizeFilenameFallback name = take 200 (replaceUnsafe (replaceSpaceRuns DASH name))"

text \<open>\<open>UploadService.sanitizeFilename\<close> of \<open>services/upload.service.ts\<close>.\<close>

definition uploadSanitizeFilename :: "jsstring \<Rightarrow> jsstring" where
  "uploadSanitizeFilename name = replaceUnsafe name"

section \<open>Path arithmetic\<close>

text \<open>
  The \<open>path\<close> module of Node on a POSIX host, as far as the sources use it. A path
  is cut into its segments at the slashes; \<open>normalizeString\<close> drops empty and
  \<open>.\<close> segments and lets a \<open>..\<close> segment remove the segment before it. Above the
  root of an absolute path a \<open>..\<close> is ignored; in a relative path it is kept.
\<close>

fun splitOn :: "jschar \<Rightarrow> jsstring \<Rightarrow> jsstring list" where
  "splitOn d [] = [[]]"
| "splitOn d (c # cs) =
     (if c = d then [] # splitOn d cs
      else (case splitOn d cs of [] \<Rightarrow> [[c]] | s # ss \<Rightarrow> (c # s) # ss))"

fun joinWith :: "jschar \<Rightarrow> jsstring list \<Rightarrow> jsstring" where
  "joinWith d [] = []"
| "joinWith d [s] = s"
| "joinWith d (s # ss) = s @ d # joinWith d ss"

definition DOTDOT :: jsstring where "DOTDOT = [DOT, DOT]"

definition normalizeStep :: "bool \<Rightarrow> jsstring list \<Rightarrow> jsstring \<Rightarrow> jsstring list" where
  "normalizeStep allowAboveRoot stack seg =
     (if seg = [] \<or> seg = [DOT] then stack
      else if seg = DOTDOT then
        (case stack of
           [] \<Rightarrow> if allowAboveRoot then [DOTDOT] else []
         | t # rest \<Rightarrow>
             if t = DOTDOT then (if allowAboveRoot then DOTDOT # stack else stack)
             else rest)
      else seg # stack)"

definition normalizeString :: "jsstring \<Rightarrow> bool \<Rightarrow> jsstring" where
  "normalizeString p allowAboveRoot =
     joinWith SLASH (rev (foldl (normalizeStep allowAboveRoot) [] (splitOn SLASH p)))"

text \<open>
  \<open>path.resolve(...args)\<close>: the arguments are taken from the right until one is
  absolute; the working directory \<open>cwd\<close> (a parameter here) comes last.
\<close>

fun resolveLoop :: "jsstring list \<Rightarrow> jsstring \<Rightarrow> jsstring \<times> bool" where
  "resolveLoop [] acc = (acc, False)"
| "resolveLoop (p # ps) acc =
     (if p = [] then resolveLoop ps acc
      else if hd p = SLASH then (p @ SLASH # acc, True)
      else resolveLoop ps (p @ SLASH # acc))"

definition path_resolve :: "jsstring \<Rightarrow> jsstring list \<Rightarrow> jsstring" where
  "path_resolve cwd args =
     (case resolveLoop (rev args @ [cwd]) [] of
        (resolvedPath, resolvedAbsolute) \<Rightarrow>
          (let n = normalizeString resolvedPath (\<not> resolvedAbsolute) in
           if resolvedAbsolute then SLASH # n
           else if n \<noteq> [] then n else [DOT]))"

text \<open>A path \<open>p\<close> lies within the directory \<open>r\<close>: it is \<open>r\<close> or starts with \<open>r/\<close>.\<close>

definition isWithin :: "jsstring \<Rightarrow> jsstring \<Rightarrow> bool" where
  "isWithin r p = (p = r \<or> prefix (r @ [SLASH]) p)"

subsection \<open>The two path guards\<close>

datatype path_error = OutsideStorageRoot | InvalidUploadPath

text \<open>\<open>safeJoin\<close> of \<open>utils/file-utils.ts\<close>.\<close>

definition safeJoin :: "jsstring \<Rightarrow> jsstring \<Rightarrow> jsstring \<Rightarrow> path_error + jsstring" where
  "safeJoin cwd rootDir relative =
     (let normalizedRoot = path_resolve cwd [rootDir];
          joined = path_resolve cwd [normalizedRoot, relative]
      in if \<not> prefix (normalizedRoot @ [SLASH]) joined \<and> joined \<noteq> normalizedRoot
         then Inl OutsideStorageRoot
         else Inr joined)"

text \<open>
  \<open>UploadService.resolvePath\<close> of \<open>services/upload.service.ts\<close>. The constant
  \<open>STORAGE_ROOT\<close> comes from a configuration module and is a parameter here.
\<close>

definition resolvePath :: "jsstring \<Rightarrow> jsstring \<Rightarrow> jsstring option \<Rightarrow> path_error + jsstring" where
  "resolvePath cwd STORAGE_ROOT uploadPath =
     (let safePath = (case uploadPath of
                        None \<Rightarrow> []
                      | Some u \<Rightarrow> if u \<noteq> [] then dropWhile (\<lambda>c. c = SLASH) u else []);
          resolved = path_resolve cwd [STORAGE_ROOT, safePath]
      in if \<not> prefix STORAGE_ROOT resolved then Inl InvalidUploadPath
         else Inr resolved)"

section \<open>Uploaded files and requests\<close>

text \<open>
  A file as multer hands it over: the client's name and MIME type, the size, and
  the content either in memory (\<open>buffer\<close>) or on disk (\<open>path\<close>). The validators guard
  against a missing size, so it is optional here. A request carries its files as
  an array, as an object of arrays by field name, or as the single \<open>req.file\<close>.
  The body field \<open>media_type\<close> and the query parameter \<open>type\<close> are whatever the
  parsers made of them: a string, or another value (an array for a repeated
  parameter, an object, a number of a JSON body), of which only its truthiness
  matters. \<open>orElse a b\<close> is \<open>a || b\<close>.
\<close>

type_synonym bytes = "8 word list"

record multer_file =
  mf_originalname :: jsstring
  mf_mimetype :: jsstring
  mf_size :: "nat option"
  mf_buffer :: "bytes option"
  mf_path :: "jsstring option"

datatype files_field =
  FilesAbsent | FilesArray "multer_file list" | FilesByField "(jsstring \<times> multer_file list) list"

datatype jsvalue = StringValue jsstring | OtherValue bool

definition truthy :: "jsvalue option \<Rightarrow> bool" where
  "truthy v = (case v of None \<Rightarrow> False | Some (StringValue s) \<Rightarrow> s \<noteq> [] | Some (OtherValue b) \<Rightarrow> b)"

definition orElse :: "jsvalue option \<Rightarrow> jsvalue \<Rightarrow> jsvalue" where
  "orElse a b = (case a of Some v \<Rightarrow> if truthy a then v else b | None \<Rightarrow> b)"

record request =
  rq_files :: files_field
  rq_file :: "multer_file option"
  rq_body_media_type :: "jsvalue option"
  rq_query_type :: "jsvalue option"

text \<open>
  Regular expressions with the \<open>i\<close> flag (and no \<open>u\<close> flag) fold ASCII letters only.
  \<open>toLowerCase\<close> is modelled on the code units whose lower case is an ASCII letter
  (\<open>A\<close> to \<open>Z\<close> and the Kelvin sign); the sources only compare its result with
  ASCII words.
\<close>

definition asciiLower :: "jschar \<Rightarrow> jschar" where
  "asciiLower c = (if 0x41 \<le> unat c \<and> unat c \<le> 0x5A then c + 0x20 else c)"

definition toLowerCase :: "jsstring \<Rightarrow> jsstring" where
  "toLowerCase s = map (\<lambda>c. if c = 0x212A then 0x6B else asciiLower c) s"

section \<open>The declared-type validator\<close>

text \<open>
  \<open>FILE_RULES\<close>, \<open>detectFileRule\<close> and \<open>mediaValidationMiddleware\<close> (the
  \<open>validators\<close> modules). The pattern \<open>/\.(a|b)$/i\<close> of a rule is the list of the
  endings it accepts, tested on the ASCII-folded name.
\<close>

datatype file_category = CatImage | CatVideo | CatAudio | CatJson | CatText | CatZip

record file_rule =
  fr_category :: file_category
  fr_mimeTypes :: "jsstring list"
  fr_extensions :: "jsstring list"
  fr_maxSize :: nat

definition endsWith :: "jsstring \<Rightarrow> jsstring \<Rightarrow> bool" where
  "endsWith s e = prefix (rev e) (rev s)"

definition extensionsTest :: "jsstring list \<Rightarrow> jsstring \<Rightarrow> bool" where
  "extensionsTest exts name = list_ex (\<lambda>e. endsWith (map asciiLower name) e) exts"

definition FILE_RULES :: "file_rule list" where
  "FILE_RULES =
    [\<lparr>fr_category = CatImage,
      fr_mimeTypes = [js ''image/jpeg'', js ''image/png'', js ''image/webp'', js ''image/gif''],
      fr_extensions = [js ''.jpg'', js ''.jpeg'', js ''.png'', js ''.webp'', js ''.gif''],
      fr_maxSize = 5 * 1024 * 1024\<rparr>,
     \<lparr>fr_category = CatVideo,
      fr_mimeTypes = [js ''video/mp4'', js ''video/webm'', js ''video/quicktime''],
      fr_extensions = [js ''.mp4'', js ''.webm'', js ''.mov''],
      fr_maxSize = 150 * 1024 * 1024\<rparr>,
     \<lparr>fr_category = CatAudio,
      fr_mimeTypes = [js ''audio/mpeg'', js ''audio/wav'', js ''audio/ogg''],
      fr_extensions = [js ''.mp3'', js ''.wav'', js ''.ogg''],
      fr_maxSize = 20 * 1024 * 1024\<rparr>,
     \<lparr>fr_category = CatJson,
      fr_mimeTypes = [js ''application/json''],
      fr_extensions = [js ''.json''],
      fr_maxSize = 2 * 1024 * 1024\<rparr>,
     \<lparr>fr_category = CatText,
      fr_mimeTypes = [js ''text/plain''],
      fr_extensions = [js ''.txt''],
      fr_maxSize = 1 * 1024 * 1024\<rparr>,
     \<lparr>fr_category = CatZip,
      fr_mimeTypes = [js ''application/zip'', js ''application/x-zip-compressed''],
      fr_extensions = [js ''.zip''],
      fr_maxSize = 50 * 1024 * 1024\<rparr>]"

definition detectFileRule :: "multer_file \<Rightarrow> file_rule option" where
  "detectFileRule f =
     find (\<lambda>rule. mf_mimetype f \<in> set (fr_mimeTypes rule) \<and>
                  extensionsTest (fr_extensions rule) (mf_originalname f)) FILE_RULES"

text \<open>
  The middleware answers with status 400 and a code, or calls \<open>next\<close> with the
  validated files attached. \<open>mvCheck\<close> is the body of its loop for one file; the
  loop returns at the first file that fails.
\<close>

datatype mv_body =
  NO_FILES | EMPTY_FILE jsstring | INVALID_FILE_TYPE jsstring | FILE_TOO_LARGE jsstring file_category

datatype mv_result =
  MvResponse nat mv_body | MvNext "(multer_file \<times> file_category) list"

definition mvCheck :: "multer_file \<Rightarrow> mv_body + multer_file \<times> file_category" where
  "mvCheck f =
     (case mf_size f of
        None \<Rightarrow> Inl (EMPTY_FILE (mf_originalname f))
      | Some n \<Rightarrow>
          if n = 0 then Inl (EMPTY_FILE (mf_originalname f))
          else case detectFileRule f of
            None \<Rightarrow> Inl (INVALID_FILE_TYPE (mf_originalname f))
          | Some rule \<Rightarrow>
              if n > fr_maxSize rule
              then Inl (FILE_TOO_LARGE (mf_originalname f) (fr_category rule))
              else Inr (f, fr_category rule))"

fun mvLoop :: "multer_file list \<Rightarrow> (multer_file \<times> file_category) list \<Rightarrow> mv_result" where
  "mvLoop [] validatedFiles = MvNext validatedFiles"
| "mvLoop (f # fs) validatedFiles =
     (case mvCheck f of
        Inl b \<Rightarrow> MvResponse 400 b
      | Inr v \<Rightarrow> mvLoop fs (validatedFiles @ [v]))"

definition requestFiles :: "request \<Rightarrow> multer_file list" where
  "requestFiles req =
     (case rq_files req of
        FilesArray a \<Rightarrow> a
      | FilesByField m \<Rightarrow> []
      | FilesAbsent \<Rightarrow> (case rq_file req of Some f \<Rightarrow> [f] | None \<Rightarrow> []))"

definition mediaValidationMiddleware :: "request \<Rightarrow> mv_result" where
  "mediaValidationMiddleware req =
     (let fs = requestFiles req
      in if fs = [] then MvResponse 400 NO_FILES else mvLoop fs [])"

section \<open>The signature validator\<close>

text \<open>
  \<open>validateAndDispatchPure\<close> and its helpers
  (\<open>middlewares/media-validate-and-dispatch.middleware.ts\<close>). The limits of \<open>RULES\<close>
  are read from the environment; the functions take them as a parameter and
  \<open>RULES\<close> holds the defaults. A limit guards its check by truthiness
  (\<open>rule.maxBytes && ...\<close>), so a limit of zero (or one that is not a number)
  switches the check off. Limits are integers here.
\<close>

record rules =
  image_maxBytes :: int
  image_maxWidth :: int
  image_maxHeight :: int
  document_maxBytes :: int
  document_maxPages :: int
  audio_maxBytes :: int
  audio_maxDuration :: int
  video_maxBytes :: int
  video_maxDuration :: int
  video_maxWidth :: int
  video_maxHeight :: int
  general_maxTotalFiles :: int

definition RULES :: rules where
  "RULES = \<lparr>image_maxBytes = 10 * 1024 * 1024, image_maxWidth = 8000, image_maxHeight = 10000,
     document_maxBytes = 200 * 1024 * 1024, document_maxPages = 200,
     audio_maxBytes = 50 * 1024 * 1024, audio_maxDuration = 600,
     video_maxBytes = 500 * 1024 * 1024, video_maxDuration = 1800,
     video_maxWidth = 3840, video_maxHeight = 2160,
     general_maxTotalFiles = 200\<rparr>"

text \<open>
  The libraries the validator calls are parameters: the signature sniffer of
  \<open>file-type\<close>, the image decoder, the PDF parser and \<open>ffprobe\<close>, each a function of
  the file content, and the message of the error raised for an unreadable file.
  Of the \<open>ffprobe\<close> report only what the validator reads is kept.
\<close>

record probe_meta =
  pm_has_format :: bool
  pm_duration :: "real option"
  pm_video_width :: "nat option"
  pm_video_height :: "nat option"

record env =
  fileType :: "bytes \<Rightarrow> (jsstring \<times> jsstring) option"
  jimpRead :: "bytes \<Rightarrow> jsstring + nat \<times> nat"
  pdfLoad :: "bytes \<Rightarrow> jsstring + nat"
  ffprobe :: "bytes \<Rightarrow> probe_meta option"
  ioErrorMessage :: "jsstring option \<Rightarrow> jsstring"

text \<open>
  The reasons stand for the message templates of the source, one constructor per
  template. \<open>work\<close> names the library calls, so that a run can report which calls
  it made on which file.
\<close>

datatype kind = KImage | KVideo | KAudio | KDocument | KUnknown

fun kindName :: "kind \<Rightarrow> jsstring" where
  "kindName KImage = js ''image''"
| "kindName KVideo = js ''video''"
| "kindName KAudio = js ''audio''"
| "kindName KDocument = js ''document''"
| "kindName KUnknown = js ''unknown''"

datatype meta = MetaImage nat nat | MetaPages nat | MetaProbe probe_meta | MetaNull

datatype reason =
    FileTooLarge nat
  | WidthExceeds nat int
  | HeightExceeds nat int
  | ImageMetadataFailed jsstring
  | DocumentTooLarge nat
  | TooManyPages nat
  | PdfParseFailed jsstring
  | DurationExceeds real int
  | UnsupportedFileType
  | ExpectedButDetected jsstring kind

datatype work = Sniff | DecodeImage | ParsePdf | Probe

text \<open>
  Files uploaded to disk are read through \<open>disk\<close>, a map from paths to content.
  An operation on the disk fails only when its file is missing: \<open>stat\<close>, the
  sniffer and the readers then throw, which the source catches, and \<open>unlink\<close> then
  changes nothing. An empty path is falsy in the source and counts as absent
  (\<open>pathOf\<close>).
\<close>

type_synonym disk = "jsstring \<rightharpoonup> bytes"

definition overLimit :: "nat option \<Rightarrow> int \<Rightarrow> nat option" where
  "overLimit sz maxBytes =
     (case sz of None \<Rightarrow> None
      | Some n \<Rightarrow> if maxBytes \<noteq> 0 \<and> int n > maxBytes then Some n else None)"

definition pathOf :: "multer_file \<Rightarrow> jsstring option" where
  "pathOf f = (case mf_path f of Some p \<Rightarrow> if p \<noteq> [] then Some p else None | None \<Rightarrow> None)"

definition bufferOrFile :: "disk \<Rightarrow> multer_file \<Rightarrow> bytes option" where
  "bufferOrFile d f =
     (case mf_buffer f of Some b \<Rightarrow> Some b
      | None \<Rightarrow> (case pathOf f of Some p \<Rightarrow> d p | None \<Rightarrow> None))"

definition detectFileType :: "env \<Rightarrow> disk \<Rightarrow> multer_file \<Rightarrow> (jsstring \<times> jsstring) option \<times> work list" where
  "detectFileType e d f =
     (case mf_buffer f of
        Some b \<Rightarrow> (fileType e b, [Sniff])
      | None \<Rightarrow>
          (case pathOf f of
             Some p \<Rightarrow> ((case d p of None \<Rightarrow> None | Some b \<Rightarrow> fileType e b), [Sniff])
           | None \<Rightarrow> (None, [])))"

definition deleteIfOnDisk :: "disk \<Rightarrow> multer_file \<Rightarrow> disk" where
  "deleteIfOnDisk d f = (case pathOf f of Some p \<Rightarrow> d(p := None) | None \<Rightarrow> d)"

definition validateImage :: "rules \<Rightarrow> env \<Rightarrow> disk \<Rightarrow> multer_file \<Rightarrow> (reason + meta) \<times> work list" where
  "validateImage r e d f =
     (case overLimit (mf_size f) (image_maxBytes r) of
        Some n \<Rightarrow> (Inl (FileTooLarge n), [])
      | None \<Rightarrow>
          (case bufferOrFile d f of
             None \<Rightarrow> (Inl (ImageMetadataFailed (ioErrorMessage e (mf_path f))), [DecodeImage])
           | Some b \<Rightarrow>
               (case jimpRead e b of
                  Inl msg \<Rightarrow> (Inl (ImageMetadataFailed msg), [DecodeImage])
                | Inr (w, h) \<Rightarrow>
                    if image_maxWidth r \<noteq> 0 \<and> int w > image_maxWidth r
                    then (Inl (WidthExceeds w (image_maxWidth r)), [DecodeImage])
                    else if image_maxHeight r \<noteq> 0 \<and> int h > image_maxHeight r
                    then (Inl (HeightExceeds h (image_maxHeight r)), [DecodeImage])
                    else (Inr (MetaImage w h), [DecodeImage]))))"

definition validateDocument :: "rules \<Rightarrow> env \<Rightarrow> disk \<Rightarrow> multer_file \<Rightarrow> (reason + meta) \<times> work list" where
  "validateDocument r e d f =
     (case overLimit (mf_size f) (document_maxBytes r) of
        Some n \<Rightarrow> (Inl (DocumentTooLarge n), [])
      | None \<Rightarrow>
          (case bufferOrFile d f of
             None \<Rightarrow> (Inl (PdfParseFailed (ioErrorMessage e (mf_path f))), [])
           | Some b \<Rightarrow>
               (case pdfLoad e b of
                  Inl msg \<Rightarrow> (Inl (PdfParseFailed msg), [ParsePdf])
                | Inr pages \<Rightarrow>
                    if document_maxPages r \<noteq> 0 \<and> int pages > document_maxPages r
                    then (Inl (TooManyPages pages), [ParsePdf])
                    else (Inr (MetaPages pages), [ParsePdf]))))"

text \<open>
  \<open>validateAudioVideo\<close> probes the file on disk, or writes the buffer to a scratch
  file under \<open>data/tmp\<close>, probes it and removes it again before it returns. The
  scratch file is not part of \<open>disk\<close>, and a failure to create or to remove it is not
  modelled: the probe of a buffer reads the buffer. Any failure of the probe falls
  back to accepting the file without metadata.
\<close>

definition probeInput :: "disk \<Rightarrow> multer_file \<Rightarrow> bytes option" where
  "probeInput d f = (case pathOf f of Some p \<Rightarrow> d p | None \<Rightarrow> mf_buffer f)"

definition validateAudioVideo ::
  "rules \<Rightarrow> env \<Rightarrow> disk \<Rightarrow> multer_file \<Rightarrow> kind \<Rightarrow> (reason + meta) \<times> work list" where
  "validateAudioVideo r e d f k =
     (let maxBytes = (if k = KVideo then video_maxBytes r else audio_maxBytes r);
          maxDuration = (if k = KVideo then video_maxDuration r else audio_maxDuration r)
      in case overLimit (mf_size f) maxBytes of
        Some n \<Rightarrow> (Inl (FileTooLarge n), [])
      | None \<Rightarrow>
          if pathOf f = None \<and> mf_buffer f = None then (Inr MetaNull, [])
          else
            (case (case probeInput d f of None \<Rightarrow> None | Some b \<Rightarrow> ffprobe e b) of
               None \<Rightarrow> (Inr MetaNull, [Probe])
             | Some m \<Rightarrow>
                 if \<not> pm_has_format m then (Inr MetaNull, [Probe])
                 else
                   (case (case pm_duration m of
                            Some du \<Rightarrow> if maxDuration \<noteq> 0 \<and> du \<noteq> 0 \<and> du > real_of_int maxDuration
                                       then Some du else None
                          | None \<Rightarrow> None) of
                      Some du \<Rightarrow> (Inl (DurationExceeds du maxDuration), [Probe])
                    | None \<Rightarrow>
                        if k = KVideo then
                          (case (case pm_video_width m of
                                   Some w \<Rightarrow> if video_maxWidth r \<noteq> 0 \<and> w \<noteq> 0 \<and> int w > video_maxWidth r
                                             then Some w else None
                                 | None \<Rightarrow> None) of
                             Some w \<Rightarrow> (Inl (WidthExceeds w (video_maxWidth r)), [Probe])
                           | None \<Rightarrow>
                               (case (case pm_video_height m of
                                        Some h \<Rightarrow> if video_maxHeight r \<noteq> 0 \<and> h \<noteq> 0 \<and> int h > video_maxHeight r
                                                  then Some h else None
                                      | None \<Rightarrow> None) of
                                  Some h \<Rightarrow> (Inl (HeightExceeds h (video_maxHeight r)), [Probe])
                                | None \<Rightarrow> (Inr (MetaProbe m), [Probe])))
                        else (Inr (MetaProbe m), [Probe]))))"

definition normalizeFiles :: "request \<Rightarrow> multer_file list" where
  "normalizeFiles req =
     (case rq_files req of
        FilesAbsent \<Rightarrow> []
      | FilesArray a \<Rightarrow> a
      | FilesByField m \<Rightarrow> concat (map snd m))"

definition startsWith :: "jsstring \<Rightarrow> jsstring \<Rightarrow> bool" where
  "startsWith s p = prefix p s"

definition decideKind :: "jsstring \<Rightarrow> jsstring \<Rightarrow> kind" where
  "decideKind mime ext =
     (if startsWith mime (js ''image/'') then KImage
      else if startsWith mime (js ''video/'') then KVideo
      else if startsWith mime (js ''audio/'') then KAudio
      else if mime = js ''application/pdf'' then KDocument
      else if ext \<in> set (map js [''jpg'', ''jpeg'', ''png'', ''webp'', ''gif'', ''bmp'', ''tif'', ''tiff''])
        then KImage
      else if ext \<in> set (map js [''mp4'', ''mkv'', ''mov'', ''avi'', ''webm'']) then KVideo
      else if ext \<in> set (map js [''mp3'', ''wav'', ''ogg'', ''m4a'']) then KAudio
      else if ext = js ''pdf'' then KDocument
      else KUnknown)"

text \<open>
  The requested type is \<open>(req.body?.media_type || req.query?.type || "").toLowerCase() || null\<close>.
  The first truthy operand wins; when it is not a string it has no \<open>toLowerCase\<close>
  and the call throws a \<open>TypeError\<close>.
\<close>

datatype vd_exception = ToLowerCaseIsNotAFunction

definition requestedTypeOf :: "request \<Rightarrow> vd_exception + jsstring option" where
  "requestedTypeOf req =
     (let raw = orElse (rq_body_media_type req) (orElse (rq_query_type req) (StringValue []))
      in case raw of
           OtherValue b \<Rightarrow> Inl ToLowerCaseIsNotAFunction
         | StringValue s \<Rightarrow>
             (let t = toLowerCase s in Inr (if t \<noteq> [] then Some t else None)))"

text \<open>
  One iteration of the loop: \<open>statSize\<close> fills in a missing size, \<open>detectKind\<close>
  sniffs the signature and decides the kind, \<open>checkFile\<close> enforces a requested type
  and dispatches to the validator of the kind. \<open>fileStep\<close> records the outcome and
  unlinks a rejected file from disk.
\<close>

record validated_file =
  vf_index :: nat
  vf_originalname :: jsstring
  vf_size :: "nat option"
  vf_mime :: jsstring
  vf_ext :: jsstring
  vf_type :: kind
  vf_meta :: meta
  vf_path :: "jsstring option"

record vstate =
  vs_errors :: "(nat \<times> reason) list"
  vs_validated :: "validated_file list"
  vs_disk :: disk
  vs_trace :: "(nat \<times> work) list"

definition statSize :: "disk \<Rightarrow> multer_file \<Rightarrow> multer_file" where
  "statSize d f =
     (case mf_size f of
        Some n \<Rightarrow> f
      | None \<Rightarrow>
          (case pathOf f of
             Some p \<Rightarrow> (case d p of Some b \<Rightarrow> f\<lparr>mf_size := Some (length b)\<rparr> | None \<Rightarrow> f)
           | None \<Rightarrow> f))"

definition sniffedMime :: "(jsstring \<times> jsstring) option \<Rightarrow> multer_file \<Rightarrow> jsstring" where
  "sniffedMime dt f = (case dt of Some (m, x) \<Rightarrow> m | None \<Rightarrow> mf_mimetype f)"

definition sniffedExt :: "(jsstring \<times> jsstring) option \<Rightarrow> multer_file \<Rightarrow> jsstring" where
  "sniffedExt dt f =
     (case dt of Some (m, x) \<Rightarrow> x
      | None \<Rightarrow> toLowerCase (last (splitOn DOT (mf_originalname f))))"

definition dispatch ::
  "rules \<Rightarrow> env \<Rightarrow> disk \<Rightarrow> multer_file \<Rightarrow> kind \<Rightarrow> (reason + meta) \<times> work list" where
  "dispatch r e d f k =
     (case k of
        KImage \<Rightarrow> validateImage r e d f
      | KDocument \<Rightarrow> validateDocument r e d f
      | KAudio \<Rightarrow> validateAudioVideo r e d f KAudio
      | KVideo \<Rightarrow> validateAudioVideo r e d f KVideo
      | KUnknown \<Rightarrow> (Inl UnsupportedFileType, []))"

definition detectKind ::
  "env \<Rightarrow> disk \<Rightarrow> multer_file \<Rightarrow> jsstring \<times> jsstring \<times> kind \<times> work list" where
  "detectKind e d f =
     (case detectFileType e d f of (dt, w) \<Rightarrow>
        (sniffedMime dt f, sniffedExt dt f, decideKind (sniffedMime dt f) (sniffedExt dt f), w))"

definition checkFile ::
  "rules \<Rightarrow> env \<Rightarrow> jsstring option \<Rightarrow> disk \<Rightarrow> nat \<times> multer_file
     \<Rightarrow> (reason + validated_file) \<times> work list" where
  "checkFile r e requestedType d x =
     (case x of (i, f0) \<Rightarrow>
       (let f = statSize d f0 in
        case detectKind e d f of (mime, ext, k, w1) \<Rightarrow>
          (case (case requestedType of
                   Some t \<Rightarrow> if t \<noteq> js ''mixed'' \<and> t \<noteq> kindName k then Some t else None
                 | None \<Rightarrow> None) of
             Some t \<Rightarrow> (Inl (ExpectedButDetected t k), w1)
           | None \<Rightarrow>
               (case dispatch r e d f k of
                  (Inl why, w2) \<Rightarrow> (Inl why, w1 @ w2)
                | (Inr m, w2) \<Rightarrow>
                    (Inr \<lparr>vf_index = i, vf_originalname = mf_originalname f, vf_size = mf_size f,
                          vf_mime = mime, vf_ext = ext, vf_type = k, vf_meta = m,
                          vf_path = pathOf f\<rparr>, w1 @ w2)))))"

definition fileStep ::
  "rules \<Rightarrow> env \<Rightarrow> jsstring option \<Rightarrow> vstate \<Rightarrow> nat \<times> multer_file \<Rightarrow> vstate" where
  "fileStep r e requestedType st x =
     (case checkFile r e requestedType (vs_disk st) x of
        (Inl why, w) \<Rightarrow>
          st\<lparr>vs_errors := vs_errors st @ [(fst x, why)],
             vs_disk := deleteIfOnDisk (vs_disk st) (snd x),
             vs_trace := vs_trace st @ map (Pair (fst x)) w\<rparr>
      | (Inr v, w) \<Rightarrow>
          st\<lparr>vs_validated := vs_validated st @ [v],
             vs_trace := vs_trace st @ map (Pair (fst x)) w\<rparr>)"

text \<open>
  The middleware: no files and too many files are answered first, then the
  requested type is read, then the loop runs over the files. The whole body is
  inside a \<open>try\<close> whose \<open>catch\<close> answers 500; the helpers catch their own errors, so
  the only exception that reaches it is the one of the requested type. The result
  is the response or the call of \<open>next\<close>, the disk as the run leaves it, and the
  library calls made, each with the index of its file.
\<close>

datatype vd_body =
    NoFilesUploaded | TooManyFiles int | ValidationFailed "(nat \<times> reason) list"
  | ValidationError vd_exception

datatype vd_result = VdResponse nat vd_body | VdNext "validated_file list" "kind list"

definition mediaTypes :: "validated_file list \<Rightarrow> kind list" where
  "mediaTypes vs = rev (remdups (rev (map vf_type vs)))"

definition validateAndDispatchPure ::
  "rules \<Rightarrow> env \<Rightarrow> disk \<Rightarrow> request \<Rightarrow> vd_result \<times> disk \<times> (nat \<times> work) list" where
  "validateAndDispatchPure r e d req =
     (let fs = normalizeFiles req in
      if fs = [] then (VdResponse 400 NoFilesUploaded, d, [])
      else if general_maxTotalFiles r \<noteq> 0 \<and> int (length fs) > general_maxTotalFiles r
      then (VdResponse 400 (TooManyFiles (general_maxTotalFiles r)), d, [])
      else
        (case requestedTypeOf req of
           Inl err \<Rightarrow> (VdResponse 500 (ValidationError err), d, [])
         | Inr requestedType \<Rightarrow>
             (let st = foldl (fileStep r e requestedType)
                         \<lparr>vs_errors = [], vs_validated = [], vs_disk = d, vs_trace = []\<rparr>
                         (enumerate 0 fs)
              in if vs_errors st \<noteq> []
                 then (VdResponse 400 (ValidationFailed (vs_errors st)), vs_disk st, vs_trace st)
                 else (VdNext (vs_validated st) (mediaTypes (vs_validated st)), vs_disk st, vs_trace st))))"


section \<open>Sample inputs\<close>

text \<open>
  A sniffer and a decoder that know the PNG signature, and a few uploads: PNG
  bytes declared as \<open>text/plain\<close> under the name \<open>evil.txt\<close>; three bytes of
  unknown type; an empty file; a PNG of ten megabytes and eight bytes, and the same
  without its size field; a PNG and three unknown bytes stored on disk. A request
  carries its files as an array, with no requested type (\<open>arrayRequest\<close>) or with
  the query parameter \<open>type\<close> (\<open>typedRequest\<close>).
\<close>

definition PNG_SIGNATURE :: bytes where
  "PNG_SIGNATURE = [0x89, 0x50, 0x4E, 0x47, 0x0D, 0x0A, 0x1A, 0x0A]"

definition pngSniffer :: "bytes \<Rightarrow> (jsstring \<times> jsstring) option" where
  "pngSniffer b = (if prefix PNG_SIGNATURE b then Some (js ''image/png'', js ''png'') else None)"

definition sampleEnv :: env where
  "sampleEnv = \<lparr>fileType = pngSniffer,
     jimpRead = (\<lambda>b. if prefix PNG_SIGNATURE b then Inr (1, 1) else Inl (js ''unsupported'')),
     pdfLoad = (\<lambda>b. Inr 1),
     ffprobe = (\<lambda>b. None), ioErrorMessage = (\<lambda>p. js ''ENOENT'')\<rparr>"

definition evilPng :: multer_file where
  "evilPng = \<lparr>mf_originalname = js ''evil.txt'', mf_mimetype = js ''text/plain'',
     mf_size = Some 8, mf_buffer = Some PNG_SIGNATURE, mf_path = None\<rparr>"

definition binFile :: multer_file where
  "binFile = \<lparr>mf_originalname = js ''x.bin'', mf_mimetype = js ''application/octet-stream'',
     mf_size = Some 3, mf_buffer = Some [1, 2, 3], mf_path = None\<rparr>"

definition emptyPng :: multer_file where
  "emptyPng = \<lparr>mf_originalname = js ''e.png'', mf_mimetype = js ''image/png'',
     mf_size = Some 0, mf_buffer = Some [], mf_path = None\<rparr>"

definition bigPng :: multer_file where
  "bigPng = \<lparr>mf_originalname = js ''big.png'', mf_mimetype = js ''image/png'',
     mf_size = Some 10485768, mf_buffer = Some (PNG_SIGNATURE @ replicate 10485760 0),
     mf_path = None\<rparr>"

definition unsizedPng :: multer_file where
  "unsizedPng = \<lparr>mf_originalname = js ''big.png'', mf_mimetype = js ''image/png'',
     mf_size = None, mf_buffer = Some (PNG_SIGNATURE @ replicate 10485760 0),
     mf_path = None\<rparr>"

definition diskPng :: multer_file where
  "diskPng = \<lparr>mf_originalname = js ''a.png'', mf_mimetype = js ''image/png'',
     mf_size = Some 8, mf_buffer = None, mf_path = Some (js ''/uploads/a'')\<rparr>"

definition diskBin :: multer_file where
  "diskBin = \<lparr>mf_originalname = js ''x.bin'', mf_mimetype = js ''application/octet-stream'',
     mf_size = Some 3, mf_buffer = None, mf_path = Some (js ''/uploads/b'')\<rparr>"

definition uploads :: disk where
  "uploads = [js ''/uploads/a'' \<mapsto> PNG_SIGNATURE, js ''/uploads/b'' \<mapsto> [1, 2, 3]]"

definition arrayRequest :: "multer_file list \<Rightarrow> request" where
  "arrayRequest fs = \<lparr>rq_files = FilesArray fs, rq_file = None, rq_body_media_type = None,
     rq_query_type = None\<rparr>"

definition typedRequest :: "jsvalue \<Rightarrow> multer_file list \<Rightarrow> request" where
  "typedRequest t fs = \<lparr>rq_files = FilesArray fs, rq_file = None, rq_body_media_type = None,
     rq_query_type = Some t\<rparr>"


section \<open>Notions used in the statements\<close>

text \<open>
  The rejections, the validated entries and the library calls of a list of
  indexed files, each file checked against the disk \<open>d\<close>; the byte limit of a kind;
  the kind the validator detects for a file.
\<close>

definition failing ::
  "rules \<Rightarrow> env \<Rightarrow> jsstring option \<Rightarrow> disk \<Rightarrow> (nat \<times> multer_file) list \<Rightarrow> (nat \<times> reason) list" where
  "failing r e rt d xs =
     map (\<lambda>x. (fst x, projl (fst (checkFile r e rt d x))))
       (filter (\<lambda>x. isl (fst (checkFile r e rt d x))) xs)"

definition passing ::
  "rules \<Rightarrow> env \<Rightarrow> jsstring option \<Rightarrow> disk \<Rightarrow> (nat \<times> multer_file) list \<Rightarrow> validated_file list" where
  "passing r e rt d xs =
     map (\<lambda>x. projr (fst (checkFile r e rt d x)))
       (filter (\<lambda>x. \<not> isl (fst (checkFile r e rt d x))) xs)"

definition workOf ::
  "rules \<Rightarrow> env \<Rightarrow> jsstring option \<Rightarrow> disk \<Rightarrow> (nat \<times> multer_file) list \<Rightarrow> (nat \<times> work) list" where
  "workOf r e rt d xs = concat (map (\<lambda>x. map (Pair (fst x)) (snd (checkFile r e rt d x))) xs)"

definition maxBytesFor :: "rules \<Rightarrow> kind \<Rightarrow> int" where
  "maxBytesFor r k =
     (case k of KImage \<Rightarrow> image_maxBytes r | KDocument \<Rightarrow> document_maxBytes r
      | KAudio \<Rightarrow> audio_maxBytes r | KVideo \<Rightarrow> video_maxBytes r | KUnknown \<Rightarrow> 0)"

definition fileKind :: "env \<Rightarrow> disk \<Rightarrow> multer_file \<Rightarrow> kind" where
  "fileKind e d f = (case detectKind e d (statSize d f) of (mime, ext, k, w) \<Rightarrow> k)"


section \<open>More path arithmetic\<close>

text \<open>
  \<open>path.normalize\<close>, \<open>path.join\<close>, \<open>path.dirname\<close> and \<open>path.relative\<close> of Node
  (POSIX), and \<open>String(n)\<close> for an index \<open>n\<close>.
\<close>

definition path_normalize :: "jsstring \<Rightarrow> jsstring" where
  "path_normalize p =
     (if p = [] then [DOT]
      else
        (let isAbsolute = (hd p = SLASH);
             trailingSeparator = (last p = SLASH);
             n = normalizeString p (\<not> isAbsolute)
         in if n = [] then (if isAbsolute then [SLASH] else if trailingSeparator then [DOT, SLASH] else [DOT])
            else (if isAbsolute then [SLASH] else []) @ n @ (if trailingSeparator then [SLASH] else [])))"

definition path_join :: "jsstring list \<Rightarrow> jsstring" where
  "path_join args =
     (case filter (\<lambda>a. a \<noteq> []) args of
        [] \<Rightarrow> [DOT]
      | a # as \<Rightarrow> path_normalize (joinWith SLASH (a # as)))"

definition path_dirname :: "jsstring \<Rightarrow> jsstring" where
  "path_dirname p =
     (if p = [] then [DOT]
      else
        (let hasRoot = (hd p = SLASH);
             r = dropWhile (\<lambda>c. c \<noteq> SLASH) (dropWhile (\<lambda>c. c = SLASH) (rev (tl p)))
         in if r = [] then (if hasRoot then [SLASH] else [DOT])
            else if hasRoot \<and> tl r = [] then [SLASH, SLASH]
            else hd p # rev (tl r)))"

definition path_relative :: "jsstring \<Rightarrow> jsstring \<Rightarrow> jsstring \<Rightarrow> jsstring" where
  "path_relative cwd fromPath toPath =
     (let f = filter (\<lambda>s. s \<noteq> []) (splitOn SLASH (path_resolve cwd [fromPath]));
          t = filter (\<lambda>s. s \<noteq> []) (splitOn SLASH (path_resolve cwd [toPath]));
          k = length (takeWhile (\<lambda>(a, b). a = b) (zip f t))
      in joinWith SLASH (replicate (length f - k) DOTDOT @ drop k t))"

function showNat :: "nat \<Rightarrow> jsstring" where
  "showNat n = (if n < 10 then [of_nat (48 + n)] else showNat (n div 10) @ [of_nat (48 + n mod 10)])"
  by pat_completeness auto
termination
  by (relation "measure id") auto

declare showNat.simps [simp del]

section \<open>The file system\<close>

text \<open>
  The disk is a map from absolute paths to nodes. Every operation can fail for a
  reason visible in the map (a missing parent, a directory in the way) or because
  the environment makes it fail: \<open>faults\<close> says which operations do.
  \<open>fs.mkdir\<close> with \<open>recursive\<close> creates the directory and its ancestors;
  \<open>fs.rm\<close> with \<open>recursive\<close> and \<open>force\<close> removes a path and all below it and does not
  mind a missing path.
\<close>

datatype node = File bytes | Dir

type_synonym fs = "jsstring \<rightharpoonup> node"

datatype io_op =
    OpMkdir jsstring | OpWriteFile jsstring | OpRename jsstring jsstring | OpReadFile jsstring
  | OpStat jsstring | OpAccess jsstring | OpUnlink jsstring | OpRm jsstring

datatype io_error = EIO | ENOENT | EISDIR | ENOTDIR

type_synonym faults = "io_op \<Rightarrow> bool"

definition ancestors :: "jsstring \<Rightarrow> jsstring list" where
  "ancestors p =
     (let segs = filter (\<lambda>s. s \<noteq> []) (splitOn SLASH p)
      in map (\<lambda>k. SLASH # joinWith SLASH (take k segs)) [0..<length segs])"

definition fs_mkdirp :: "faults \<Rightarrow> fs \<Rightarrow> jsstring \<Rightarrow> io_error + fs" where
  "fs_mkdirp ft s p =
     (if ft (OpMkdir p) then Inl EIO
      else if list_ex (\<lambda>q. case s q of Some (File b) \<Rightarrow> True | _ \<Rightarrow> False) (p # ancestors p)
      then Inl ENOTDIR
      else Inr (\<lambda>q. if q \<in> set (p # ancestors p) then Some Dir else s q))"

definition fs_writeFile :: "faults \<Rightarrow> fs \<Rightarrow> jsstring \<Rightarrow> bytes \<Rightarrow> io_error + fs" where
  "fs_writeFile ft s p b =
     (if ft (OpWriteFile p) then Inl EIO
      else if s p = Some Dir then Inl EISDIR
      else if s (path_dirname p) \<noteq> Some Dir then Inl ENOENT
      else Inr (s(p \<mapsto> File b)))"

definition fs_rename :: "faults \<Rightarrow> fs \<Rightarrow> jsstring \<Rightarrow> jsstring \<Rightarrow> io_error + fs" where
  "fs_rename ft s src dst =
     (if ft (OpRename src dst) then Inl EIO
      else case s src of
        None \<Rightarrow> Inl ENOENT
      | Some Dir \<Rightarrow> Inl EISDIR
      | Some (File b) \<Rightarrow>
          if s dst = Some Dir then Inl EISDIR
          else if s (path_dirname dst) \<noteq> Some Dir then Inl ENOENT
          else Inr ((s(src := None))(dst \<mapsto> File b)))"

definition fs_readFile :: "faults \<Rightarrow> fs \<Rightarrow> jsstring \<Rightarrow> io_error + bytes" where
  "fs_readFile ft s p =
     (if ft (OpReadFile p) then Inl EIO
      else case s p of None \<Rightarrow> Inl ENOENT | Some Dir \<Rightarrow> Inl EISDIR | Some (File b) \<Rightarrow> Inr b)"

definition DIR_SIZE :: nat where "DIR_SIZE = 4096"

definition fs_stat_size :: "faults \<Rightarrow> fs \<Rightarrow> jsstring \<Rightarrow> io_error + nat" where
  "fs_stat_size ft s p =
     (if ft (OpStat p) then Inl EIO
      else case s p of None \<Rightarrow> Inl ENOENT | Some Dir \<Rightarrow> Inr DIR_SIZE | Some (File b) \<Rightarrow> Inr (length b))"

definition fs_unlink :: "faults \<Rightarrow> fs \<Rightarrow> jsstring \<Rightarrow> io_error + fs" where
  "fs_unlink ft s p =
     (if ft (OpUnlink p) then Inl EIO
      else case s p of None \<Rightarrow> Inl ENOENT | Some Dir \<Rightarrow> Inl EISDIR | Some (File b) \<Rightarrow> Inr (s(p := None)))"

definition fs_rm_rf :: "faults \<Rightarrow> fs \<Rightarrow> jsstring \<Rightarrow> io_error + fs" where
  "fs_rm_rf ft s p =
     (if ft (OpRm p) then Inl EIO
      else Inr (\<lambda>q. if isWithin p q then None else s q))"

text \<open>
  \<open>ensureDir\<close>, \<open>writeFileAtomic\<close> and \<open>absToPublicPath\<close> of
  \<open>utils/file-utils.ts\<close>; \<open>pathExists\<close> and \<open>safeRm\<close> of the storage service. The six
  random bytes of the temporary name are a parameter. \<open>writeFileAtomic\<close> returns the
  disk as it leaves it, also when it fails.
\<close>

definition ensureDir :: "faults \<Rightarrow> fs \<Rightarrow> jsstring \<Rightarrow> io_error + fs" where
  "ensureDir ft s dirPath = fs_mkdirp ft s dirPath"

definition writeFileAtomic ::
  "faults \<Rightarrow> jsstring \<Rightarrow> fs \<Rightarrow> jsstring \<Rightarrow> bytes \<Rightarrow> (io_error + unit) \<times> fs" where
  "writeFileAtomic ft randomHex s targetPath buffer =
     (case ensureDir ft s (path_dirname targetPath) of
        Inl err \<Rightarrow> (Inl err, s)
      | Inr s1 \<Rightarrow>
          (let tmp = targetPath @ js ''.tmp-'' @ randomHex in
           case fs_writeFile ft s1 tmp buffer of
             Inl err \<Rightarrow> (Inl err, s1)
           | Inr s2 \<Rightarrow>
               (case fs_rename ft s2 tmp targetPath of
                  Inl err \<Rightarrow> (Inl err, s2)
                | Inr s3 \<Rightarrow> (Inr (), s3))))"

definition pathExists :: "faults \<Rightarrow> fs \<Rightarrow> jsstring \<Rightarrow> bool" where
  "pathExists ft s p = (\<not> ft (OpAccess p) \<and> s p \<noteq> None)"

definition safeRm :: "faults \<Rightarrow> fs \<Rightarrow> jsstring \<Rightarrow> fs" where
  "safeRm ft s p = (case fs_rm_rf ft s p of Inl err \<Rightarrow> s | Inr s' \<Rightarrow> s')"

definition absToPublicPath :: "jsstring \<Rightarrow> jsstring \<Rightarrow> jsstring \<Rightarrow> unit + jsstring" where
  "absToPublicPath cwd finalRoot absolutePath =
     (let normalizedRoot = path_resolve cwd [finalRoot];
          normalizedPath = path_resolve cwd [absolutePath]
      in if \<not> prefix normalizedRoot normalizedPath then Inl ()
         else Inr (path_relative cwd normalizedRoot normalizedPath))"

section \<open>The storage service\<close>

text \<open>
  The storage service (\<open>services/storage.service.ts\<close>) with the path helpers of
  \<open>config.ts\<close>. Its surroundings are a parameter: the configuration, the working
  directory, the faults of the disk, the random draws (\<open>randomBytes\<close>, \<open>uuidv4\<close>,
  indexed by the call), SHA-256 and the optional processing hook. Every function
  returns its result or error, the disk it leaves and what it logged.
  \<open>saveTempFiles\<close> writes the files one after the other here; the source starts the
  writes together and awaits them all.
\<close>

record config =
  storageDriver :: jsstring
  hostStoragePath :: jsstring
  publicBaseUrl :: jsstring

definition usesHostPath :: "config \<Rightarrow> bool" where
  "usesHostPath cfg = (storageDriver cfg = js ''host'' \<or> storageDriver cfg = js ''both'')"

definition tempDir :: "config \<Rightarrow> jsstring \<Rightarrow> jsstring" where
  "tempDir cfg cwd =
     (if usesHostPath cfg then path_join [hostStoragePath cfg, js ''temp'']
      else path_join [cwd, js ''data'', js ''temp''])"

definition finalRoot :: "config \<Rightarrow> jsstring \<Rightarrow> jsstring" where
  "finalRoot cfg cwd =
     (if usesHostPath cfg then path_join [hostStoragePath cfg, js ''media'']
      else path_join [cwd, js ''data'', js ''media''])"

definition publicPathToUrl :: "config \<Rightarrow> jsstring \<Rightarrow> jsstring" where
  "publicPathToUrl cfg publicPath =
     publicBaseUrl cfg @ [SLASH] @
       dropWhile (\<lambda>c. c = SLASH) (map (\<lambda>c. if c = 0x5C then SLASH else c) publicPath)"

record process_result =
  pr_mime :: "jsstring option"
  pr_width :: "nat option"
  pr_height :: "nat option"
  pr_metadata :: "jsstring option"

type_synonym processHook =
  "fs \<Rightarrow> jsstring \<Rightarrow> jsstring \<Rightarrow> jsstring \<Rightarrow> nat \<Rightarrow> (unit + process_result option) \<times> fs"

record storage_env =
  se_config :: config
  se_cwd :: jsstring
  se_faults :: faults
  se_randomHex :: "nat \<Rightarrow> jsstring"
  se_uuid :: "nat \<Rightarrow> jsstring"
  se_sha256 :: "bytes \<Rightarrow> jsstring"
  se_processHook :: "processHook option"

definition TEMP_ROOT :: "storage_env \<Rightarrow> jsstring" where
  "TEMP_ROOT env = tempDir (se_config env) (se_cwd env)"

definition FINAL_ROOT :: "storage_env \<Rightarrow> jsstring" where
  "FINAL_ROOT env = finalRoot (se_config env) (se_cwd env)"

datatype storage_error =
    TempIdNotFound
  | TempFileMissing nat
  | PathError path_error
  | IoError io_error
  | NoBuffer
  | NotUnderFinalRoot

datatype log_entry =
    InfoSaved nat jsstring
  | WarnMissing nat
  | WarnHookFailed
  | InfoCommitted nat jsstring jsstring
  | InfoDeleted jsstring

record temp_file_record =
  tf_index :: nat
  tf_originalName :: jsstring
  tf_mime :: jsstring
  tf_size :: "nat option"
  tf_tempPath :: jsstring

record commit_mapping =
  cm_tempIndex :: nat
  cm_filename :: "jsstring option"
  cm_page_number :: "nat option"
  cm_is_cover :: "bool option"

record commit_options =
  co_visibility :: "jsstring option"
  co_failIfMissing :: "bool option"

record commit_result =
  cr_filename :: jsstring
  cr_storage_path :: jsstring
  cr_url :: jsstring
  cr_mime :: jsstring
  cr_width :: "nat option"
  cr_height :: "nat option"
  cr_size_bytes :: nat
  cr_sha256 :: jsstring
  cr_metadata :: "jsstring option"

definition saveOne ::
  "storage_env \<Rightarrow> jsstring \<Rightarrow> fs \<Rightarrow> nat \<times> multer_file \<Rightarrow> (storage_error + temp_file_record) \<times> fs" where
  "saveOne env dir s x =
     (case x of (idx, f) \<Rightarrow>
        (let sanitized = sanitizeFilename
               (if mf_originalname f \<noteq> [] then mf_originalname f else js ''file-'' @ showNat idx);
             tempPath = path_join [dir, showNat idx]
         in case mf_buffer f of
              None \<Rightarrow> (Inl NoBuffer, s)
            | Some b \<Rightarrow>
                (case writeFileAtomic (se_faults env) (se_randomHex env idx) s tempPath b of
                   (Inl err, s') \<Rightarrow> (Inl (IoError err), s')
                 | (Inr u, s') \<Rightarrow>
                     (Inr \<lparr>tf_index = idx, tf_originalName = sanitized, tf_mime = mf_mimetype f,
                          tf_size = mf_size f, tf_tempPath = tempPath\<rparr>, s'))))"

fun saveAll ::
  "storage_env \<Rightarrow> jsstring \<Rightarrow> fs \<Rightarrow> (nat \<times> multer_file) list \<Rightarrow> temp_file_record list
     \<Rightarrow> (storage_error + temp_file_record list) \<times> fs" where
  "saveAll env dir s [] results = (Inr results, s)"
| "saveAll env dir s (x # xs) results =
     (case saveOne env dir s x of
        (Inl err, s') \<Rightarrow> (Inl err, s')
      | (Inr rec, s') \<Rightarrow> saveAll env dir s' xs (results @ [rec]))"

definition saveTempFiles ::
  "storage_env \<Rightarrow> fs \<Rightarrow> multer_file list
     \<Rightarrow> (storage_error + jsstring \<times> temp_file_record list) \<times> fs \<times> log_entry list" where
  "saveTempFiles env s multerFiles =
     (let tempId = se_uuid env 0 in
      case safeJoin (se_cwd env) (TEMP_ROOT env) tempId of
        Inl err \<Rightarrow> (Inl (PathError err), s, [])
      | Inr dir \<Rightarrow>
          (case ensureDir (se_faults env) s dir of
             Inl err \<Rightarrow> (Inl (IoError err), s, [])
           | Inr s1 \<Rightarrow>
               (case saveAll env dir s1 (enumerate 0 multerFiles) [] of
                  (Inl err, s2) \<Rightarrow> (Inl err, s2, [])
                | (Inr results, s2) \<Rightarrow>
                    (Inr (tempId, results), s2, [InfoSaved (length results) tempId]))))"

text \<open>
  The \<open>try\<close> block around the processing hook. \<open>Inl\<close> is an exception on its way
  to the \<open>catch\<close>; it carries the hook's result when the hook had returned by then,
  since \<open>processResult\<close> is assigned before the later steps can throw.
\<close>

definition runHook ::
  "storage_env \<Rightarrow> processHook \<Rightarrow> nat \<Rightarrow> fs \<Rightarrow> jsstring \<Rightarrow> jsstring \<Rightarrow> jsstring \<Rightarrow> nat \<Rightarrow> bytes
     \<Rightarrow> (process_result option + process_result option) \<times> fs" where
  "runHook env hook k s tempPath finalAbs filename tempIndex buffer =
     (let tmpDest = finalAbs @ js ''.proc.tmp-'' @ se_uuid env k in
      case ensureDir (se_faults env) s (path_dirname tmpDest) of
        Inl err \<Rightarrow> (Inl None, s)
      | Inr s1 \<Rightarrow>
          (case fs_writeFile (se_faults env) s1 tmpDest buffer of
             Inl err \<Rightarrow> (Inl None, s1)
           | Inr s2 \<Rightarrow>
               (case hook s2 tempPath tmpDest filename tempIndex of
                  (Inl u, s3) \<Rightarrow> (Inl None, s3)
                | (Inr processResult, s3) \<Rightarrow>
                    if pathExists (se_faults env) s3 tmpDest then
                      (case fs_readFile (se_faults env) s3 tmpDest of
                         Inl err \<Rightarrow> (Inl processResult, s3)
                       | Inr produced \<Rightarrow>
                           (case writeFileAtomic (se_faults env) (se_randomHex env (2 * k)) s3 finalAbs produced of
                              (Inl err, s4) \<Rightarrow> (Inl processResult, s4)
                            | (Inr u, s4) \<Rightarrow>
                                (Inr processResult,
                                 (case fs_unlink (se_faults env) s4 tmpDest of
                                    Inl err \<Rightarrow> s4 | Inr s5 \<Rightarrow> s5))))
                    else
                      (case writeFileAtomic (se_faults env) (se_randomHex env (2 * k)) s3 finalAbs buffer of
                         (Inl err, s4) \<Rightarrow> (Inl processResult, s4)
                       | (Inr u, s4) \<Rightarrow> (Inr processResult, s4)))))"

definition writeFinal ::
  "storage_env \<Rightarrow> nat \<Rightarrow> fs \<Rightarrow> jsstring \<Rightarrow> jsstring \<Rightarrow> jsstring \<Rightarrow> nat \<Rightarrow> bytes
     \<Rightarrow> (storage_error + process_result option) \<times> fs \<times> log_entry list" where
  "writeFinal env k s tempPath finalAbs filename tempIndex buffer =
     (case se_processHook env of
        None \<Rightarrow>
          (case writeFileAtomic (se_faults env) (se_randomHex env (2 * k)) s finalAbs buffer of
             (Inl err, s1) \<Rightarrow> (Inl (IoError err), s1, [])
           | (Inr u, s1) \<Rightarrow> (Inr None, s1, []))
      | Some hook \<Rightarrow>
          (case runHook env hook k s tempPath finalAbs filename tempIndex buffer of
             (Inr processResult, s1) \<Rightarrow> (Inr processResult, s1, [])
           | (Inl processResult, s1) \<Rightarrow>
               (case writeFileAtomic (se_faults env) (se_randomHex env (2 * k + 1)) s1 finalAbs buffer of
                  (Inl err, s2) \<Rightarrow> (Inl (IoError err), s2, [WarnHookFailed])
                | (Inr u, s2) \<Rightarrow> (Inr processResult, s2, [WarnHookFailed]))))"

definition buildResult ::
  "storage_env \<Rightarrow> jsstring \<Rightarrow> jsstring \<Rightarrow> process_result option \<Rightarrow> nat \<Rightarrow> bytes \<Rightarrow> commit_result" where
  "buildResult env filename publicPath processResult sz finalBuffer =
     \<lparr>cr_filename = filename,
      cr_storage_path = publicPath,
      cr_url = publicPathToUrl (se_config env) publicPath,
      cr_mime = (case processResult of
                   Some pr \<Rightarrow> (case pr_mime pr of Some m \<Rightarrow> m
                               | None \<Rightarrow> js ''application/octet-stream'')
                 | None \<Rightarrow> js ''application/octet-stream''),
      cr_width = (case processResult of Some pr \<Rightarrow> pr_width pr | None \<Rightarrow> None),
      cr_height = (case processResult of Some pr \<Rightarrow> pr_height pr | None \<Rightarrow> None),
      cr_size_bytes = sz,
      cr_sha256 = se_sha256 env finalBuffer,
      cr_metadata = (case processResult of Some pr \<Rightarrow> pr_metadata pr | None \<Rightarrow> None)\<rparr>"

definition computeMetadata ::
  "storage_env \<Rightarrow> fs \<Rightarrow> jsstring \<Rightarrow> jsstring \<Rightarrow> process_result option
     \<Rightarrow> storage_error + commit_result" where
  "computeMetadata env s finalAbs filename processResult =
     (case fs_stat_size (se_faults env) s finalAbs of
        Inl err \<Rightarrow> Inl (IoError err)
      | Inr sz \<Rightarrow>
          (case fs_readFile (se_faults env) s finalAbs of
             Inl err \<Rightarrow> Inl (IoError err)
           | Inr finalBuffer \<Rightarrow>
               (case absToPublicPath (se_cwd env) (FINAL_ROOT env) finalAbs of
                  Inl u \<Rightarrow> Inl NotUnderFinalRoot
                | Inr publicPath \<Rightarrow>
                    Inr (buildResult env filename publicPath processResult sz finalBuffer))))"

definition finalFilename :: "commit_mapping \<Rightarrow> jsstring" where
  "finalFilename mapping =
     (case cm_filename mapping of
        Some n \<Rightarrow> if n \<noteq> [] then sanitizeFilename n
                  else sanitizeFilename (js ''file-'' @ showNat (cm_tempIndex mapping))
      | None \<Rightarrow> sanitizeFilename (js ''file-'' @ showNat (cm_tempIndex mapping)))"

definition failIfMissing :: "commit_options option \<Rightarrow> bool" where
  "failIfMissing options =
     (case options of Some opts \<Rightarrow> co_failIfMissing opts = Some True | None \<Rightarrow> False)"

definition commitOne ::
  "storage_env \<Rightarrow> jsstring \<Rightarrow> jsstring \<Rightarrow> commit_options option \<Rightarrow> nat \<Rightarrow> fs \<Rightarrow> commit_mapping
     \<Rightarrow> (storage_error + commit_result option) \<times> fs \<times> log_entry list" where
  "commitOne env dir finalBaseAbs options k s mapping =
     (let tempPath = path_join [dir, showNat (cm_tempIndex mapping)] in
      if \<not> pathExists (se_faults env) s tempPath then
        (if failIfMissing options
         then (Inl (TempFileMissing (cm_tempIndex mapping)), s, [])
         else (Inr None, s, [WarnMissing (cm_tempIndex mapping)]))
      else
        (let filename = finalFilename mapping in
         case safeJoin (se_cwd env) finalBaseAbs filename of
           Inl err \<Rightarrow> (Inl (PathError err), s, [])
         | Inr finalAbs \<Rightarrow>
             (case fs_readFile (se_faults env) s tempPath of
                Inl err \<Rightarrow> (Inl (IoError err), s, [])
              | Inr buffer \<Rightarrow>
                  (case writeFinal env k s tempPath finalAbs filename (cm_tempIndex mapping) buffer of
                     (Inl err, s1, lg) \<Rightarrow> (Inl err, s1, lg)
                   | (Inr processResult, s1, lg) \<Rightarrow>
                       (case computeMetadata env s1 finalAbs filename processResult of
                          Inl err \<Rightarrow> (Inl err, s1, lg)
                        | Inr item \<Rightarrow> (Inr (Some item), s1, lg))))))"

fun commitMappings ::
  "storage_env \<Rightarrow> jsstring \<Rightarrow> jsstring \<Rightarrow> commit_options option \<Rightarrow> nat \<Rightarrow> fs
     \<Rightarrow> commit_mapping list \<Rightarrow> commit_result list
     \<Rightarrow> (storage_error + commit_result list) \<times> fs \<times> log_entry list" where
  "commitMappings env dir finalBaseAbs options k s [] results = (Inr results, s, [])"
| "commitMappings env dir finalBaseAbs options k s (mapping # rest) results =
     (case commitOne env dir finalBaseAbs options k s mapping of
        (Inl err, s1, lg) \<Rightarrow> (Inl err, s1, lg)
      | (Inr item, s1, lg) \<Rightarrow>
          (case commitMappings env dir finalBaseAbs options (Suc k) s1 rest
                  (results @ (case item of Some r \<Rightarrow> [r] | None \<Rightarrow> [])) of
             (res, s2, lg2) \<Rightarrow> (res, s2, lg @ lg2)))"

definition commitTempToFinal ::
  "storage_env \<Rightarrow> fs \<Rightarrow> jsstring \<Rightarrow> jsstring \<Rightarrow> commit_mapping list \<Rightarrow> commit_options option
     \<Rightarrow> (storage_error + commit_result list) \<times> fs \<times> log_entry list" where
  "commitTempToFinal env s tempId targetBase mappings options =
     (case safeJoin (se_cwd env) (TEMP_ROOT env) tempId of
        Inl err \<Rightarrow> (Inl (PathError err), s, [])
      | Inr dir \<Rightarrow>
          if \<not> pathExists (se_faults env) s dir then (Inl TempIdNotFound, s, [])
          else
            (let cleanedTargetBase = dropWhile (\<lambda>c. c = SLASH) targetBase in
             case safeJoin (se_cwd env) (FINAL_ROOT env) cleanedTargetBase of
               Inl err \<Rightarrow> (Inl (PathError err), s, [])
             | Inr finalBaseAbs \<Rightarrow>
                 (case ensureDir (se_faults env) s finalBaseAbs of
                    Inl err \<Rightarrow> (Inl (IoError err), s, [])
                  | Inr s1 \<Rightarrow>
                      (case commitMappings env dir finalBaseAbs options 0 s1 mappings [] of
                         (Inl err, s2, lg) \<Rightarrow> (Inl err, s2, lg)
                       | (Inr results, s2, lg) \<Rightarrow>
                           (Inr results, safeRm (se_faults env) s2 dir,
                            lg @ [InfoCommitted (length results) tempId cleanedTargetBase])))))"

definition deletePath ::
  "storage_env \<Rightarrow> fs \<Rightarrow> jsstring \<Rightarrow> (storage_error + bool) \<times> fs \<times> log_entry list" where
  "deletePath env s relativePath =
     (let cleaned = dropWhile (\<lambda>c. c = SLASH) relativePath in
      case safeJoin (se_cwd env) (FINAL_ROOT env) cleaned of
        Inl err \<Rightarrow> (Inl (PathError err), s, [])
      | Inr absPath \<Rightarrow> (Inr True, safeRm (se_faults env) s absPath, [InfoDeleted absPath]))"

section \<open>Notions used in the statements on storage\<close>

text \<open>
  The session directory of a temp id, and the final path a mapping is committed to.
\<close>

definition sessionDir :: "storage_env \<Rightarrow> jsstring \<Rightarrow> path_error + jsstring" where
  "sessionDir env tempId = safeJoin (se_cwd env) (TEMP_ROOT env) tempId"

definition finalPath :: "storage_env \<Rightarrow> jsstring \<Rightarrow> commit_mapping \<Rightarrow> path_error + jsstring" where
  "finalPath env targetBase mapping =
     (case safeJoin (se_cwd env) (FINAL_ROOT env) (dropWhile (\<lambda>c. c = SLASH) targetBase) of
        Inl err \<Rightarrow> Inl err
      | Inr finalBaseAbs \<Rightarrow> safeJoin (se_cwd env) finalBaseAbs (finalFilename mapping))"

section \<open>Sample storage\<close>

text \<open>
  A host-mounted store under \<open>/data\<close> with no faults and no hook; the disk after
  staging the sample PNG as session \<open>t1\<close>, and after committing it to \<open>books/1\<close>
  as \<open>cover.webp\<close>; a mapping whose index was never staged.
\<close>

definition sampleConfig :: config where
  "sampleConfig = \<lparr>storageDriver = js ''host'', hostStoragePath = js ''/data'',
     publicBaseUrl = js ''http://localhost:4000''\<rparr>"

definition sampleStorage :: storage_env where
  "sampleStorage = \<lparr>se_config = sampleConfig, se_cwd = js ''/app'', se_faults = (\<lambda>op. False),
     se_randomHex = (\<lambda>n. js ''0a1b2c3d4e5f''), se_uuid = (\<lambda>n. js ''t1''),
     se_sha256 = (\<lambda>b. js ''sha256:'' @ map (\<lambda>w. of_nat (unat w)) b),
     se_processHook = None\<rparr>"

definition coverMapping :: commit_mapping where
  "coverMapping = \<lparr>cm_tempIndex = 0, cm_filename = Some (js ''cover.webp''),
     cm_page_number = None, cm_is_cover = Some True\<rparr>"

definition stagedFs :: fs where
  "stagedFs = [js ''/'' \<mapsto> Dir, js ''/data'' \<mapsto> Dir, js ''/data/temp'' \<mapsto> Dir,
     js ''/data/temp/t1'' \<mapsto> Dir, js ''/data/temp/t1/0'' \<mapsto> File PNG_SIGNATURE]"

definition committedFs :: fs where
  "committedFs = [js ''/'' \<mapsto> Dir, js ''/data'' \<mapsto> Dir, js ''/data/temp'' \<mapsto> Dir,
     js ''/data/media'' \<mapsto> Dir, js ''/data/media/books'' \<mapsto> Dir,
     js ''/data/media/books/1'' \<mapsto> Dir,
     js ''/data/media/books/1/cover.webp'' \<mapsto> File PNG_SIGNATURE]"

definition coverRecord :: commit_result where
  "coverRecord = \<lparr>cr_filename = js ''cover.webp'', cr_storage_path = js ''books/1/cover.webp'',
     cr_url = js ''http://localhost:4000/books/1/cover.webp'',
     cr_mime = js ''application/octet-stream'', cr_width = None, cr_height = None,
     cr_size_bytes = 8, cr_sha256 = se_sha256 sampleStorage PNG_SIGNATURE, cr_metadata = None\<rparr>"

definition missingMapping :: commit_mapping where
  "missingMapping = \<lparr>cm_tempIndex = 5, cm_filename = None, cm_page_number = None,
     cm_is_cover = None\<rparr>"

definition strictOptions :: commit_options where
  "strictOptions = \<lparr>co_visibility = None, co_failIfMissing = Some True\<rparr>"

section \<open>Properties of the sanitizers\<close>

lemma space_not_safe: "isSpace c \<Longrightarrow> \<not> isSafeChar c"
  unfolding isSpace_def isSafeChar_def Let_def by arith

lemma safe_underscore: "isSafeChar UNDERSCORE"
  by (simp add: isSafeChar_def UNDERSCORE_def)

lemma safe_dash: "isSafeChar DASH"
  by (simp add: isSafeChar_def DASH_def)

lemma slash_not_safe: "\<not> isSafeChar SLASH"
  by (simp add: isSafeChar_def SLASH_def)

lemma replaceUnsafe_safe: "\<forall>c \<in> set (replaceUnsafe s). isSafeChar c"
  by (auto simp: replaceUnsafe_def safe_underscore)

lemma replaceUnsafe_id: "\<forall>c \<in> set s. isSafeChar c \<Longrightarrow> replaceUnsafe s = s"
  by (induction s) (auto simp: replaceUnsafe_def)

lemma replaceSpaceRuns_id: "\<forall>c \<in> set s. isSafeChar c \<Longrightarrow> replaceSpaceRuns r s = s"
  by (induction s) (auto dest: space_not_safe)

lemma basename_id:
  assumes "\<forall>c \<in> set s. isSafeChar c"
  shows "basename s = s"
proof -
  have ns: "\<forall>c \<in> set (rev s). c \<noteq> SLASH"
    using assms slash_not_safe by auto
  then have d: "dropWhile (\<lambda>c. c = SLASH) (rev s) = rev s"
    by (cases "rev s") auto
  have t: "takeWhile (\<lambda>c. c \<noteq> SLASH) (rev s) = rev s"
    using ns by (induction "rev s") auto
  show ?thesis
    by (simp only: basename_def d t rev_rev_ident)
qed

lemma dropTrailing_set: "set (dropTrailing u s) \<subseteq> set s"
proof -
  have "set (dropWhile (\<lambda>c. c = u) (rev s)) \<subseteq> set (rev s)"
    by (rule set_dropWhileD[THEN subsetI])
  then show ?thesis by (simp add: dropTrailing_def)
qed

lemma trimUnderscores_set: "set (trimUnderscores s) \<subseteq> set s"
  unfolding trimUnderscores_def
  using dropTrailing_set[of UNDERSCORE "dropWhile (\<lambda>c. c = UNDERSCORE) s"] set_dropWhileD
  by fastforce

lemma dropTrailing_hd:
  "s = [] \<or> hd s \<noteq> u \<Longrightarrow> dropTrailing u s = [] \<or> hd (dropTrailing u s) \<noteq> u"
proof (induction s rule: rev_induct)
  case Nil
  then show ?case by (simp add: dropTrailing_def)
next
  case (snoc x xs)
  show ?case
  proof (cases "x = u")
    case True
    then have eq: "dropTrailing u (xs @ [x]) = dropTrailing u xs"
      by (simp add: dropTrailing_def)
    have "xs = [] \<or> hd xs \<noteq> u"
      using snoc.prems by (cases xs) auto
    then show ?thesis using snoc.IH eq by simp
  next
    case False
    then have "dropTrailing u (xs @ [x]) = xs @ [x]"
      by (simp add: dropTrailing_def)
    then show ?thesis using snoc.prems by simp
  qed
qed

lemma trimUnderscores_hd:
  "trimUnderscores s = [] \<or> hd (trimUnderscores s) \<noteq> UNDERSCORE"
proof -
  have "dropWhile (\<lambda>c. c = UNDERSCORE) s = [] \<or> hd (dropWhile (\<lambda>c. c = UNDERSCORE) s) \<noteq> UNDERSCORE"
    using hd_dropWhile[of "\<lambda>c. c = UNDERSCORE" s] by auto
  then show ?thesis
    unfolding trimUnderscores_def by (rule dropTrailing_hd)
qed

lemma sanitizeFilename_safe: "\<forall>c \<in> set (sanitizeFilename x). isSafeChar c"
proof (cases "x = []")
  case True
  then show ?thesis by (simp add: sanitizeFilename_def)
next
  case False
  let ?t = "trimUnderscores (replaceUnsafe (replaceSpaceRuns UNDERSCORE (basename x)))"
  have "set (take 200 ?t) \<subseteq> set ?t" by (rule set_take_subset)
  also have "\<dots> \<subseteq> set (replaceUnsafe (replaceSpaceRuns UNDERSCORE (basename x)))"
    by (rule trimUnderscores_set)
  finally show ?thesis
    using False replaceUnsafe_safe by (auto simp: sanitizeFilename_def)
qed

lemma sanitizeFilename_hd:
  "sanitizeFilename x = [] \<or> hd (sanitizeFilename x) \<noteq> UNDERSCORE"
proof (cases "x = []")
  case True
  then show ?thesis by (simp add: sanitizeFilename_def)
next
  case False
  let ?t = "trimUnderscores (replaceUnsafe (replaceSpaceRuns UNDERSCORE (basename x)))"
  have "?t = [] \<or> hd ?t \<noteq> UNDERSCORE" by (rule trimUnderscores_hd)
  then have "take 200 ?t = [] \<or> hd (take 200 ?t) \<noteq> UNDERSCORE"
    by (cases ?t) auto
  then show ?thesis using False by (simp add: sanitizeFilename_def)
qed

lemma sanitizeFilename_len: "length (sanitizeFilename x) \<le> 200"
  by (simp add: sanitizeFilename_def)

lemma sanitizeFilename_of_clean:
  assumes safe: "\<forall>c \<in> set y. isSafeChar c"
    and hd: "y = [] \<or> hd y \<noteq> UNDERSCORE"
    and len: "length y \<le> 200"
  shows "sanitizeFilename y = dropTrailing UNDERSCORE y"
proof (cases "y = []")
  case True
  then show ?thesis by (simp add: sanitizeFilename_def dropTrailing_def)
next
  case False
  have lead: "dropWhile (\<lambda>c. c = UNDERSCORE) y = y"
    using hd False by (cases y) auto
  have "length (dropTrailing UNDERSCORE y) \<le> length y"
    by (simp add: dropTrailing_def length_dropWhile_le order_trans[OF length_dropWhile_le])
  then have short: "take 200 (dropTrailing UNDERSCORE y) = dropTrailing UNDERSCORE y"
    using len by simp
  show ?thesis
    using False safe
    by (simp add: sanitizeFilename_def basename_id replaceSpaceRuns_id replaceUnsafe_id
        trimUnderscores_def lead short)
qed

lemma sanitizeFilename_twice:
  "sanitizeFilename (sanitizeFilename x) = dropTrailing UNDERSCORE (sanitizeFilename x)"
  by (rule sanitizeFilename_of_clean[OF sanitizeFilename_safe sanitizeFilename_hd sanitizeFilename_len])

lemma dropTrailing_fix: "dropTrailing u s = s \<longleftrightarrow> (s = [] \<or> last s \<noteq> u)"
proof (cases s rule: rev_cases)
  case Nil
  then show ?thesis by (simp add: dropTrailing_def)
next
  case (snoc xs x)
  show ?thesis
  proof (cases "x = u")
    case True
    have "length (dropTrailing u xs) \<le> length xs"
      using length_dropWhile_le[of "\<lambda>c. c = u" "rev xs"] by (simp add: dropTrailing_def)
    then have "dropTrailing u xs \<noteq> xs @ [x]"
      by auto
    then show ?thesis using snoc True by (simp add: dropTrailing_def)
  next
    case False
    then show ?thesis using snoc by (simp add: dropTrailing_def)
  qed
qed

lemma fallback_safe: "\<forall>c \<in> set (sanitizeFilenameFallback x). isSafeChar c"
  using replaceUnsafe_safe[of "replaceSpaceRuns DASH x"]
  by (auto simp: sanitizeFilenameFallback_def dest: in_set_takeD)

lemma fallback_len: "length (sanitizeFilenameFallback x) \<le> 200"
  by (simp add: sanitizeFilenameFallback_def)

lemma fallback_of_clean:
  "\<forall>c \<in> set y. isSafeChar c \<Longrightarrow> length y \<le> 200 \<Longrightarrow> sanitizeFilenameFallback y = y"
  by (simp add: sanitizeFilenameFallback_def replaceSpaceRuns_id replaceUnsafe_id)


subsection \<open>Length bound and idempotence\<close>

text \<open>
  Claim C4, as the code has it. Both sanitizers return at most 200 code units, and
  \<open>_sanitizeFilenameFallback\<close> is idempotent. \<open>sanitizeFilename\<close> trims the
  underscores before it truncates, so a result cut at 200 code units may end in an
  underscore, which a second run trims: sanitizing twice gives the first result
  without its trailing underscores, and \<open>sanitizeFilename\<close> is idempotent on exactly
  the inputs whose result does not end in an underscore.
\<close>

theorem sanitizers_bounded_and_idempotence:
  "length (sanitizeFilename x) \<le> 200 \<and>
   length (sanitizeFilenameFallback x) \<le> 200 \<and>
   sanitizeFilenameFallback (sanitizeFilenameFallback x) = sanitizeFilenameFallback x \<and>
   sanitizeFilename (sanitizeFilename x) = dropTrailing UNDERSCORE (sanitizeFilename x) \<and>
   ((sanitizeFilename (sanitizeFilename x) = sanitizeFilename x) =
    (sanitizeFilename x = [] \<or> last (sanitizeFilename x) \<noteq> UNDERSCORE))"
proof -
  have tw: "sanitizeFilename (sanitizeFilename x) = dropTrailing UNDERSCORE (sanitizeFilename x)"
    by (rule sanitizeFilename_twice)
  have fb: "sanitizeFilenameFallback (sanitizeFilenameFallback x) = sanitizeFilenameFallback x"
    by (rule fallback_of_clean[OF fallback_safe fallback_len])
  have fx: "(dropTrailing UNDERSCORE (sanitizeFilename x) = sanitizeFilename x) =
    (sanitizeFilename x = [] \<or> last (sanitizeFilename x) \<noteq> UNDERSCORE)"
    by (rule dropTrailing_fix)
  show ?thesis
    by (intro conjI sanitizeFilename_len fallback_len fb tw) (simp only: tw fx)
qed

theorem sanitizers_bounded_and_idempotence_witness:
  "length (sanitizeFilename (js ''My Photo!!.PNG'')) \<le> 200 \<and>
   sanitizeFilename (js ''My Photo!!.PNG'') = js ''My_Photo__.PNG'' \<and>
   sanitizeFilename (sanitizeFilename (js ''My Photo!!.PNG'')) = sanitizeFilename (js ''My Photo!!.PNG'')"
proof -
  have v: "sanitizeFilename (js ''My Photo!!.PNG'') = js ''My_Photo__.PNG''"
    by (simp add: sanitizeFilename_def basename_def js_def replaceUnsafe_def isSafeChar_def
        isSpace_def trimUnderscores_def dropTrailing_def SLASH_def UNDERSCORE_def)
  have l: "sanitizeFilename (js ''My Photo!!.PNG'') = [] \<or>
     last (sanitizeFilename (js ''My Photo!!.PNG'')) \<noteq> UNDERSCORE"
    unfolding v by (simp add: js_def UNDERSCORE_def)
  note t = sanitizers_bounded_and_idempotence[of "js ''My Photo!!.PNG''"]
  from t have a: "length (sanitizeFilename (js ''My Photo!!.PNG'')) \<le> 200"
    by (rule conjunct1)
  from t have b: "(sanitizeFilename (sanitizeFilename (js ''My Photo!!.PNG'')) =
       sanitizeFilename (js ''My Photo!!.PNG'')) =
     (sanitizeFilename (js ''My Photo!!.PNG'') = [] \<or>
      last (sanitizeFilename (js ''My Photo!!.PNG'')) \<noteq> UNDERSCORE)"
    by (elim conjE)
  from b l have c: "sanitizeFilename (sanitizeFilename (js ''My Photo!!.PNG'')) =
       sanitizeFilename (js ''My Photo!!.PNG'')"
    by (rule iffD2)
  show ?thesis using a v c by (intro conjI)
qed

text \<open>
  The claim as stated fails for \<open>sanitizeFilename\<close>: 199 letters \<open>a\<close> followed by
  \<open>_b\<close> are cut to 199 letters and an underscore, which the second run removes.
\<close>

theorem sanitizeFilename_not_idempotent:
  "sanitizeFilename (sanitizeFilename (replicate 199 0x61 @ js ''_b''))
     \<noteq> sanitizeFilename (replicate 199 0x61 @ js ''_b'')"
proof -
  let ?x = "replicate 199 (0x61::jschar) @ js ''_b''"
  have x: "?x = (0x61::jschar) # replicate 198 0x61 @ [UNDERSCORE, 0x62]"
    by (simp add: js_def UNDERSCORE_def replicate_Suc[symmetric] del: replicate_Suc)
  have safe: "\<forall>c \<in> set ?x. isSafeChar c"
    by (auto simp: js_def isSafeChar_def)
  have lead: "dropWhile (\<lambda>c. c = UNDERSCORE) ?x = ?x"
    unfolding x by (simp add: UNDERSCORE_def)
  have trail: "dropTrailing UNDERSCORE ?x = ?x"
    by (simp add: dropTrailing_fix js_def UNDERSCORE_def)
  have "sanitizeFilename ?x = take 200 ?x"
    using safe
    by (simp only: sanitizeFilename_def basename_id replaceSpaceRuns_id replaceUnsafe_id
        trimUnderscores_def lead trail) simp
  also have "\<dots> = replicate 199 0x61 @ [UNDERSCORE]"
    by (simp add: js_def UNDERSCORE_def)
  finally have s: "sanitizeFilename ?x = replicate 199 0x61 @ [UNDERSCORE]" .
  have "dropTrailing UNDERSCORE (sanitizeFilename ?x) \<noteq> sanitizeFilename ?x"
    unfolding s by (simp add: dropTrailing_fix)
  then show ?thesis
    unfolding sanitizeFilename_twice .
qed


section \<open>Properties of the path guards\<close>

lemmas path_defs = path_resolve_def normalizeString_def normalizeStep_def DOTDOT_def DOT_def
  SLASH_def js_def Let_def

lemma safeJoin_confined:
  "safeJoin cwd rootDir relative = Inr p \<Longrightarrow> isWithin (path_resolve cwd [rootDir]) p"
  by (auto simp: safeJoin_def isWithin_def Let_def split: if_splits)

lemma safeJoin_rejects_sibling:
  "safeJoin (js ''/app'') (js ''/srv/storage'') (js ''../storageEVIL'') = Inl OutsideStorageRoot"
  by (simp add: safeJoin_def path_defs)

text \<open>
  Claim C1 on \<open>UploadService.resolvePath\<close>. Its guard is a bare \<open>startsWith\<close> on the
  root, with no separator after it: with the storage root \<open>/srv/storage\<close> the upload
  path \<open>../storageEVIL\<close> resolves to the sibling directory \<open>/srv/storageEVIL\<close>, which
  is returned although it is neither the root nor within it. \<open>safeJoin\<close> rejects the
  same input.
\<close>

theorem resolvePath_escapes_root:
  "resolvePath (js ''/app'') (js ''/srv/storage'') (Some (js ''../storageEVIL''))
     = Inr (js ''/srv/storageEVIL'') \<and>
   \<not> isWithin (js ''/srv/storage'') (js ''/srv/storageEVIL'') \<and>
   safeJoin (js ''/app'') (js ''/srv/storage'') (js ''../storageEVIL'') = Inl OutsideStorageRoot"
  by (simp add: resolvePath_def safeJoin_def isWithin_def path_defs)

section \<open>Properties of the validators\<close>

lemmas mv_defs = mediaValidationMiddleware_def requestFiles_def mvCheck_def detectFileRule_def FILE_RULES_def extensionsTest_def
  asciiLower_def endsWith_def

lemmas vd_defs = validateAndDispatchPure_def normalizeFiles_def requestedTypeOf_def orElse_def
  truthy_def fileStep_def
  checkFile_def detectKind_def detectFileType_def statSize_def sniffedMime_def sniffedExt_def
  decideKind_def startsWith_def dispatch_def validateImage_def probeInput_def overLimit_def bufferOrFile_def
  pathOf_def deleteIfOnDisk_def mediaTypes_def RULES_def enumerate_eq_zip Let_def toLowerCase_def

lemma mvLoop_char:
  "mvLoop fs acc =
     (case find (\<lambda>f. isl (mvCheck f)) fs of
        Some f \<Rightarrow> MvResponse 400 (projl (mvCheck f))
      | None \<Rightarrow> MvNext (acc @ map (\<lambda>f. projr (mvCheck f)) fs))"
  by (induction fs arbitrary: acc) (auto split: sum.splits option.splits)


lemma pathOf_statSize [simp]: "pathOf (statSize d f) = pathOf f"
  by (simp add: statSize_def pathOf_def split: option.splits)

lemma buffer_statSize [simp]: "mf_buffer (statSize d f) = mf_buffer f"
  by (simp add: statSize_def split: option.splits)

lemma statSize_cong:
  assumes "\<And>p. pathOf f = Some p \<Longrightarrow> d1 p = d2 p"
  shows "statSize d1 f = statSize d2 f"
  using assms by (auto simp: statSize_def split: option.splits)

lemma bufferOrFile_cong:
  assumes "\<And>p. pathOf f = Some p \<Longrightarrow> d1 p = d2 p"
  shows "bufferOrFile d1 f = bufferOrFile d2 f"
  using assms by (auto simp: bufferOrFile_def split: option.splits)

lemma detectFileType_cong:
  assumes "\<And>p. pathOf f = Some p \<Longrightarrow> d1 p = d2 p"
  shows "detectFileType e d1 f = detectFileType e d2 f"
  using assms by (auto simp: detectFileType_def split: option.splits)

lemma probeInput_cong:
  assumes "\<And>p. pathOf f = Some p \<Longrightarrow> d1 p = d2 p"
  shows "probeInput d1 f = probeInput d2 f"
  using assms by (auto simp: probeInput_def split: option.splits)

lemma validateAudioVideo_cong:
  assumes "\<And>p. pathOf f = Some p \<Longrightarrow> d1 p = d2 p"
  shows "validateAudioVideo r e d1 f k = validateAudioVideo r e d2 f k"
proof -
  have "probeInput d1 f = probeInput d2 f"
    by (rule probeInput_cong[OF assms])
  then show ?thesis
    unfolding validateAudioVideo_def by (simp only:)
qed

lemma dispatch_cong:
  assumes "\<And>p. pathOf f = Some p \<Longrightarrow> d1 p = d2 p"
  shows "dispatch r e d1 f k = dispatch r e d2 f k"
proof -
  have "bufferOrFile d1 f = bufferOrFile d2 f"
    by (rule bufferOrFile_cong[OF assms])
  moreover have "\<And>k. validateAudioVideo r e d1 f k = validateAudioVideo r e d2 f k"
    by (rule validateAudioVideo_cong[OF assms])
  ultimately show ?thesis
    unfolding dispatch_def validateImage_def validateDocument_def by (simp only:)
qed

lemma checkFile_cong:
  assumes "\<And>p. pathOf f = Some p \<Longrightarrow> d1 p = d2 p"
  shows "checkFile r e rt d1 (i, f) = checkFile r e rt d2 (i, f)"
proof -
  have s: "statSize d1 f = statSize d2 f"
    by (rule statSize_cong[OF assms])
  have a: "\<And>p. pathOf (statSize d2 f) = Some p \<Longrightarrow> d1 p = d2 p"
    using assms by simp
  have "detectFileType e d1 (statSize d2 f) = detectFileType e d2 (statSize d2 f)"
    by (rule detectFileType_cong[OF a])
  moreover have "\<And>k. dispatch r e d1 (statSize d2 f) k = dispatch r e d2 (statSize d2 f) k"
    by (rule dispatch_cong[OF a])
  ultimately show ?thesis
    by (simp only: checkFile_def detectKind_def Let_def prod.case s)
qed

lemma deleteIfOnDisk_other:
  "pathOf f \<noteq> Some p \<Longrightarrow> deleteIfOnDisk d f p = d p"
  by (auto simp: deleteIfOnDisk_def split: option.splits)

lemma fileStep_fields:
  "vs_errors (fileStep r e rt st x) =
     vs_errors st @ failing r e rt (vs_disk st) [x] \<and>
   vs_validated (fileStep r e rt st x) =
     vs_validated st @ passing r e rt (vs_disk st) [x] \<and>
   vs_trace (fileStep r e rt st x) =
     vs_trace st @ workOf r e rt (vs_disk st) [x] \<and>
   (\<forall>p. pathOf (snd x) \<noteq> Some p \<longrightarrow> vs_disk (fileStep r e rt st x) p = vs_disk st p)"
  by (cases "checkFile r e rt (vs_disk st) x"; cases "fst (checkFile r e rt (vs_disk st) x)")
     (auto simp: fileStep_def failing_def passing_def workOf_def deleteIfOnDisk_other)

lemma fileStep_disk:
  "vs_disk (fileStep r e rt st x) =
     (if isl (fst (checkFile r e rt (vs_disk st) x)) then deleteIfOnDisk (vs_disk st) (snd x)
      else vs_disk st)"
  by (cases "checkFile r e rt (vs_disk st) x"; cases "fst (checkFile r e rt (vs_disk st) x)")
     (auto simp: fileStep_def)

lemma in_set_map_filter:
  "g \<in> set fs \<Longrightarrow> h g = Some p \<Longrightarrow> p \<in> set (List.map_filter h fs)"
  by (force simp: List.map_filter_def)

lemma run_char:
  assumes "distinct (List.map_filter pathOf fs)"
    and "\<forall>f \<in> set fs. \<forall>p. pathOf f = Some p \<longrightarrow> vs_disk st p = d p"
  shows "vs_errors (foldl (fileStep r e rt) st (enumerate n fs)) =
           vs_errors st @ failing r e rt d (enumerate n fs) \<and>
         vs_validated (foldl (fileStep r e rt) st (enumerate n fs)) =
           vs_validated st @ passing r e rt d (enumerate n fs) \<and>
         vs_trace (foldl (fileStep r e rt) st (enumerate n fs)) =
           vs_trace st @ workOf r e rt d (enumerate n fs)"
  using assms
proof (induction fs arbitrary: n st)
  case Nil
  then show ?case by (simp add: failing_def passing_def workOf_def)
next
  case (Cons f fs)
  let ?st1 = "fileStep r e rt st (n, f)"
  have agree: "\<And>p. pathOf f = Some p \<Longrightarrow> vs_disk st p = d p"
    using Cons.prems(2) by simp
  note step = fileStep_fields[of r e rt st "(n, f)"]
  have dist: "distinct (List.map_filter pathOf fs)"
    using Cons.prems(1) by (simp add: map_filter_simps split: option.splits)
  have fresh: "\<And>p. pathOf f = Some p \<Longrightarrow> p \<notin> set (List.map_filter pathOf fs)"
    using Cons.prems(1) by (simp add: map_filter_simps split: option.splits)
  have inv: "\<forall>g \<in> set fs. \<forall>p. pathOf g = Some p \<longrightarrow> vs_disk ?st1 p = d p"
  proof (intro ballI allI impI)
    fix g p
    assume g: "g \<in> set fs" and p: "pathOf g = Some p"
    then have "p \<in> set (List.map_filter pathOf fs)"
      by (rule in_set_map_filter)
    then have "pathOf f \<noteq> Some p"
      using fresh by auto
    then have "vs_disk ?st1 p = vs_disk st p"
      using step by simp
    then show "vs_disk ?st1 p = d p"
      using Cons.prems(2) g p by simp
  qed
  note ih = Cons.IH[OF dist inv, of "Suc n"]
  have c: "checkFile r e rt (vs_disk st) (n, f) = checkFile r e rt d (n, f)"
    by (rule checkFile_cong[OF agree])
  have unroll: "foldl (fileStep r e rt) st (enumerate n (f # fs)) =
      foldl (fileStep r e rt) ?st1 (enumerate (Suc n) fs)"
    by simp
  have f1: "failing r e rt d (enumerate n (f # fs)) =
      failing r e rt (vs_disk st) [(n, f)] @ failing r e rt d (enumerate (Suc n) fs)"
    by (simp add: failing_def c)
  have p1: "passing r e rt d (enumerate n (f # fs)) =
      passing r e rt (vs_disk st) [(n, f)] @ passing r e rt d (enumerate (Suc n) fs)"
    by (simp add: passing_def c)
  have w1: "workOf r e rt d (enumerate n (f # fs)) =
      workOf r e rt (vs_disk st) [(n, f)] @ workOf r e rt d (enumerate (Suc n) fs)"
    by (simp add: workOf_def c)
  show ?case
    unfolding unroll f1 p1 w1
    using ih step by (simp only: append_assoc simp_thms)
qed

lemma run_disk:
  assumes "distinct (List.map_filter pathOf fs)"
    and "\<forall>f \<in> set fs. \<forall>p. pathOf f = Some p \<longrightarrow> vs_disk st p = d p"
  shows "vs_disk (foldl (fileStep r e rt) st (enumerate n fs)) p =
           (if \<exists>x \<in> set (enumerate n fs). pathOf (snd x) = Some p \<and> isl (fst (checkFile r e rt d x))
            then None else vs_disk st p)"
  using assms
proof (induction fs arbitrary: n st)
  case Nil
  then show ?case by simp
next
  case (Cons f fs)
  let ?st1 = "fileStep r e rt st (n, f)"
  have agree: "\<And>p. pathOf f = Some p \<Longrightarrow> vs_disk st p = d p"
    using Cons.prems(2) by simp
  note step = fileStep_fields[of r e rt st "(n, f)"]
  have dist: "distinct (List.map_filter pathOf fs)"
    using Cons.prems(1) by (simp add: map_filter_simps split: option.splits)
  have fresh: "\<And>p. pathOf f = Some p \<Longrightarrow> p \<notin> set (List.map_filter pathOf fs)"
    using Cons.prems(1) by (simp add: map_filter_simps split: option.splits)
  have inv: "\<forall>g \<in> set fs. \<forall>p. pathOf g = Some p \<longrightarrow> vs_disk ?st1 p = d p"
  proof (intro ballI allI impI)
    fix g p
    assume g: "g \<in> set fs" and p: "pathOf g = Some p"
    then have "p \<in> set (List.map_filter pathOf fs)"
      by (rule in_set_map_filter)
    then have "pathOf f \<noteq> Some p"
      using fresh by auto
    then have "vs_disk ?st1 p = vs_disk st p"
      using step by simp
    then show "vs_disk ?st1 p = d p"
      using Cons.prems(2) g p by simp
  qed
  note ih = Cons.IH[OF dist inv, of "Suc n"]
  have c: "checkFile r e rt (vs_disk st) (n, f) = checkFile r e rt d (n, f)"
    by (rule checkFile_cong[OF agree])
  have d1: "vs_disk ?st1 p =
      (if pathOf f = Some p \<and> isl (fst (checkFile r e rt d (n, f))) then None else vs_disk st p)"
    by (auto simp: fileStep_disk c deleteIfOnDisk_def split: option.splits)
  have unroll: "foldl (fileStep r e rt) st (enumerate n (f # fs)) =
      foldl (fileStep r e rt) ?st1 (enumerate (Suc n) fs)"
    by simp
  have ex: "(\<exists>x \<in> set (enumerate n (f # fs)). pathOf (snd x) = Some p \<and> isl (fst (checkFile r e rt d x))) \<longleftrightarrow>
      (pathOf f = Some p \<and> isl (fst (checkFile r e rt d (n, f)))) \<or>
      (\<exists>x \<in> set (enumerate (Suc n) fs). pathOf (snd x) = Some p \<and> isl (fst (checkFile r e rt d x)))"
    by simp
  show ?case
    unfolding unroll ex ih d1 by auto
qed



lemma run_trace_grows:
  "set (vs_trace st) \<subseteq> set (vs_trace (foldl (fileStep r e rt) st xs))"
proof (induction xs arbitrary: st)
  case Nil
  then show ?case by simp
next
  case (Cons x xs)
  have "set (vs_trace st) \<subseteq> set (vs_trace (fileStep r e rt st x))"
    using fileStep_fields[of r e rt st x] by simp
  then show ?case
    using Cons.IH[of "fileStep r e rt st x"] by auto
qed


lemma detectFileType_work: "set (snd (detectFileType e d f)) \<subseteq> {Sniff}"
  by (auto simp: detectFileType_def split: option.splits)

lemma detectFileType_content:
  "bufferOrFile d f = Some b \<Longrightarrow> detectFileType e d f = (fileType e b, [Sniff])"
  by (auto simp: detectFileType_def bufferOrFile_def split: option.splits)

lemma bufferOrFile_statSize [simp]: "bufferOrFile d (statSize d' f) = bufferOrFile d f"
  by (auto simp: bufferOrFile_def split: option.splits)

lemma mimetype_statSize [simp]: "mf_mimetype (statSize d f) = mf_mimetype f"
  by (simp add: statSize_def split: option.splits)

lemma originalname_statSize [simp]: "mf_originalname (statSize d f) = mf_originalname f"
  by (simp add: statSize_def split: option.splits)

lemma dispatch_over_limit:
  "overLimit (mf_size f) (maxBytesFor r k) = Some n \<Longrightarrow> snd (dispatch r e d f k) = []"
  by (cases k) (simp_all add: dispatch_def maxBytesFor_def validateImage_def validateDocument_def
      validateAudioVideo_def)

lemma checkFile_work:
  assumes "w \<in> set (snd (checkFile r e rt d (i, f)))" and "w \<noteq> Sniff"
  shows "overLimit (mf_size (statSize d f)) (maxBytesFor r (fileKind e d f)) = None"
proof (rule ccontr)
  assume "overLimit (mf_size (statSize d f)) (maxBytesFor r (fileKind e d f)) \<noteq> None"
  then obtain n where
    over: "overLimit (mf_size (statSize d f)) (maxBytesFor r (fileKind e d f)) = Some n"
    by auto
  obtain dt w1 where dft: "detectFileType e d (statSize d f) = (dt, w1)"
    by (cases "detectFileType e d (statSize d f)")
  have w1: "set w1 \<subseteq> {Sniff}"
    using detectFileType_work[of e d "statSize d f"] dft by simp
  let ?k = "decideKind (sniffedMime dt (statSize d f)) (sniffedExt dt (statSize d f))"
  have k: "fileKind e d f = ?k"
    by (simp add: fileKind_def detectKind_def dft)
  have w2: "snd (dispatch r e d (statSize d f) ?k) = []"
    using dispatch_over_limit[of "statSize d f" r ?k n] over k by simp
  have "set (snd (checkFile r e rt d (i, f))) \<subseteq> set w1"
    using w2
    by (cases "dispatch r e d (statSize d f) ?k")
       (auto simp: checkFile_def detectKind_def dft Let_def split: option.splits sum.splits)
  then show False
    using assms w1 by auto
qed

lemma checkFile_sniffs:
  assumes "mf_buffer f \<noteq> None \<or> pathOf f \<noteq> None"
  shows "Sniff \<in> set (snd (checkFile r e rt d (i, f)))"
proof -
  have "snd (detectFileType e d (statSize d f)) = [Sniff]"
    using assms by (auto simp: detectFileType_def split: option.splits)
  then obtain dt where dft: "detectFileType e d (statSize d f) = (dt, [Sniff])"
    by (cases "detectFileType e d (statSize d f)") auto
  let ?k = "decideKind (sniffedMime dt (statSize d f)) (sniffedExt dt (statSize d f))"
  show ?thesis
    by (cases "dispatch r e d (statSize d f) ?k")
       (auto simp: checkFile_def detectKind_def dft Let_def split: option.splits sum.splits)
qed

lemma in_workOf:
  "(i, w) \<in> set (workOf r e rt d xs) \<longleftrightarrow> (\<exists>f. (i, f) \<in> set xs \<and> w \<in> set (snd (checkFile r e rt d (i, f))))"
  by (force simp: workOf_def)

lemma in_failing:
  "(i, f) \<in> set xs \<Longrightarrow> fst (checkFile r e rt d (i, f)) = Inl why \<Longrightarrow> (i, why) \<in> set (failing r e rt d xs)"
  by (force simp: failing_def)

lemma in_passing:
  "(i, f) \<in> set xs \<Longrightarrow> fst (checkFile r e rt d (i, f)) = Inr v \<Longrightarrow> v \<in> set (passing r e rt d xs)"
  by (force simp: passing_def)

lemma run_sniffs:
  "(j, f) \<in> set xs \<Longrightarrow> mf_buffer f \<noteq> None \<or> pathOf f \<noteq> None \<Longrightarrow>
   (j, Sniff) \<in> set (vs_trace (foldl (fileStep r e rt) st xs))"
proof (induction xs arbitrary: st)
  case Nil
  then show ?case by simp
next
  case (Cons x xs)
  show ?case
  proof (cases "x = (j, f)")
    case True
    have "(j, Sniff) \<in> set (workOf r e rt (vs_disk st) [(j, f)])"
      using checkFile_sniffs[OF Cons.prems(2), of r e rt "vs_disk st" j] by (simp add: workOf_def)
    then have "(j, Sniff) \<in> set (vs_trace (fileStep r e rt st x))"
      using True fileStep_fields[of r e rt st x] by simp
    then show ?thesis
      using run_trace_grows[of "fileStep r e rt st x" r e rt xs] by auto
  next
    case False
    then have "(j, f) \<in> set xs"
      using Cons.prems(1) by simp
    then show ?thesis
      using Cons.IH Cons.prems(2) by simp
  qed
qed

lemma run_result:
  assumes "normalizeFiles req \<noteq> []"
    and "\<not> (general_maxTotalFiles r \<noteq> 0 \<and> int (length (normalizeFiles req)) > general_maxTotalFiles r)"
    and "requestedTypeOf req = Inr rt"
    and "distinct (List.map_filter pathOf (normalizeFiles req))"
  shows "fst (validateAndDispatchPure r e d req) =
      (if failing r e rt d (enumerate 0 (normalizeFiles req)) \<noteq> []
       then VdResponse 400 (ValidationFailed (failing r e rt d (enumerate 0 (normalizeFiles req))))
       else VdNext (passing r e rt d (enumerate 0 (normalizeFiles req)))
              (mediaTypes (passing r e rt d (enumerate 0 (normalizeFiles req)))))"
    and "snd (snd (validateAndDispatchPure r e d req)) =
      workOf r e rt d (enumerate 0 (normalizeFiles req))"
    and "fst (snd (validateAndDispatchPure r e d req)) p =
      (if \<exists>x \<in> set (enumerate 0 (normalizeFiles req)).
            pathOf (snd x) = Some p \<and> isl (fst (checkFile r e rt d x))
       then None else d p)"
proof -
  let ?st0 = "\<lparr>vs_errors = [], vs_validated = [], vs_disk = d, vs_trace = []\<rparr>"
  have ag: "\<forall>f \<in> set (normalizeFiles req). \<forall>p. pathOf f = Some p \<longrightarrow> vs_disk ?st0 p = d p"
    by simp
  note rc = run_char[OF assms(4) ag, of r e rt 0]
  note rd = run_disk[OF assms(4) ag, of r e rt 0 p]
  show "fst (validateAndDispatchPure r e d req) =
      (if failing r e rt d (enumerate 0 (normalizeFiles req)) \<noteq> []
       then VdResponse 400 (ValidationFailed (failing r e rt d (enumerate 0 (normalizeFiles req))))
       else VdNext (passing r e rt d (enumerate 0 (normalizeFiles req)))
              (mediaTypes (passing r e rt d (enumerate 0 (normalizeFiles req)))))"
    using assms(1,2,3) rc by (simp add: validateAndDispatchPure_def Let_def)
  show "snd (snd (validateAndDispatchPure r e d req)) =
      workOf r e rt d (enumerate 0 (normalizeFiles req))"
    using assms(1,2,3) rc by (auto simp: validateAndDispatchPure_def Let_def)
  show "fst (snd (validateAndDispatchPure r e d req)) p =
      (if \<exists>x \<in> set (enumerate 0 (normalizeFiles req)).
            pathOf (snd x) = Some p \<and> isl (fst (checkFile r e rt d x))
       then None else d p)"
    using assms(1,2,3) rd by (auto simp: validateAndDispatchPure_def Let_def)
qed

lemmas sample_defs = sampleEnv_def evilPng_def binFile_def emptyPng_def arrayRequest_def
  pngSniffer_def PNG_SIGNATURE_def js_def

lemmas sample_defs2 = sample_defs bigPng_def unsizedPng_def diskPng_def diskBin_def uploads_def
  typedRequest_def

lemma statSize_decl:
  "statSize d (f\<lparr>mf_mimetype := c, mf_originalname := n\<rparr>) =
     (statSize d f)\<lparr>mf_mimetype := c, mf_originalname := n\<rparr>"
  by (simp add: statSize_def pathOf_def split: option.splits)

lemma dispatch_decl:
  "dispatch r e d (g\<lparr>mf_mimetype := c, mf_originalname := n\<rparr>) k = dispatch r e d g k"
proof -
  let ?g = "g\<lparr>mf_mimetype := c, mf_originalname := n\<rparr>"
  have a: "mf_size ?g = mf_size g" "mf_path ?g = mf_path g" "mf_buffer ?g = mf_buffer g"
    by simp_all
  have p: "pathOf ?g = pathOf g"
    by (simp add: pathOf_def)
  have b: "bufferOrFile d ?g = bufferOrFile d g" "probeInput d ?g = probeInput d g"
    by (auto simp: bufferOrFile_def probeInput_def p split: option.splits)
  show ?thesis
    unfolding dispatch_def validateImage_def validateDocument_def validateAudioVideo_def
    by (simp only: a b p)
qed

lemma checkFile_verdict:
  assumes "bufferOrFile d f = Some b"
    and "mime = (case fileType e b of Some (m, x) \<Rightarrow> m | None \<Rightarrow> mf_mimetype f)"
    and "ext = (case fileType e b of Some (m, x) \<Rightarrow> x
                | None \<Rightarrow> toLowerCase (last (splitOn DOT (mf_originalname f))))"
  shows "fst (checkFile r e rt d (i, f)) =
     (case (case rt of
              Some t \<Rightarrow> if t \<noteq> js ''mixed'' \<and> t \<noteq> kindName (decideKind mime ext) then Some t else None
            | None \<Rightarrow> None) of
        Some t \<Rightarrow> Inl (ExpectedButDetected t (decideKind mime ext))
      | None \<Rightarrow>
          map_sum id
            (\<lambda>mt. \<lparr>vf_index = i, vf_originalname = mf_originalname f, vf_size = mf_size (statSize d f),
                   vf_mime = mime, vf_ext = ext, vf_type = decideKind mime ext, vf_meta = mt,
                   vf_path = pathOf f\<rparr>)
            (fst (dispatch r e d (statSize d f) (decideKind mime ext))))"
proof -
  have dft: "detectFileType e d (statSize d f) = (fileType e b, [Sniff])"
    using detectFileType_content[of d "statSize d f" b e] assms(1) by simp
  have m: "sniffedMime (fileType e b) (statSize d f) = mime"
    by (simp add: sniffedMime_def assms(2) split: option.splits)
  have x: "sniffedExt (fileType e b) (statSize d f) = ext"
    by (simp add: sniffedExt_def assms(3) split: option.splits)
  show ?thesis
    by (cases "dispatch r e d (statSize d f) (decideKind mime ext)";
        cases "fst (dispatch r e d (statSize d f) (decideKind mime ext))")
       (auto simp: checkFile_def detectKind_def dft m x Let_def split: option.splits)
qed

lemma checkFile_decl:
  assumes "bufferOrFile d f = Some b" and "fileType e b = Some (m, x)"
  shows "fst (checkFile r e rt d (i, f\<lparr>mf_mimetype := c, mf_originalname := n\<rparr>)) =
     map_sum id (\<lambda>v. v\<lparr>vf_originalname := n\<rparr>) (fst (checkFile r e rt d (i, f)))"
proof -
  let ?g = "f\<lparr>mf_mimetype := c, mf_originalname := n\<rparr>"
  have p: "pathOf ?g = pathOf f"
    by (simp add: pathOf_def)
  have bg: "bufferOrFile d ?g = Some b"
    using assms(1) by (auto simp: bufferOrFile_def p split: option.splits)
  have mg: "m = (case fileType e b of Some (m, x) \<Rightarrow> m | None \<Rightarrow> mf_mimetype ?g)"
    and xg: "x = (case fileType e b of Some (m, x) \<Rightarrow> x
                | None \<Rightarrow> toLowerCase (last (splitOn DOT (mf_originalname ?g))))"
    and mf: "m = (case fileType e b of Some (m, x) \<Rightarrow> m | None \<Rightarrow> mf_mimetype f)"
    and xf: "x = (case fileType e b of Some (m, x) \<Rightarrow> x
                | None \<Rightarrow> toLowerCase (last (splitOn DOT (mf_originalname f))))"
    using assms(2) by simp_all
  show ?thesis
    unfolding checkFile_verdict[OF bg mg xg] checkFile_verdict[OF assms(1) mf xf]
    by (cases "fst (dispatch r e d (statSize d f) (decideKind m x))")
       (auto simp: statSize_decl dispatch_decl p split: option.splits)
qed


text \<open>
  Claim C2, as the code has it. Take a file with content in a request on which
  \<open>validateAndDispatchPure\<close> runs its loop: the requested type is absent or a string,
  the number of files is within the limit, the files on disk have distinct paths.
  The kind of the file is \<open>decideKind\<close> of the MIME type and the extension that the
  sniffer reports for the content; the declared MIME type and the extension of the
  name take their place only when the sniffer reports nothing. If a type other
  than this kind (and other than \<open>mixed\<close>) was requested, the response lists the file
  as expected of that type but detected as this kind. Otherwise the verdict on the
  file is the one of the validator of its kind: a rejection is listed in the
  response under the index of the file; an acceptance is recorded, when the batch
  is handed on, with the kind and the MIME type and extension it was decided from.
  A MIME type \<open>image/...\<close> makes the file an image, whose validator is
  \<open>validateImage\<close>.
  When the sniffer recognises the content, another declared MIME type and another
  name change nothing in the verdict on the file but the name copied into it.
  \<open>detectFileRule\<close> never looks at the content: its result is the same for any
  bytes.
\<close>

theorem category_from_content_or_declaration:
  "(requestedTypeOf req = Inr rt \<and>
    \<not> (general_maxTotalFiles r \<noteq> 0 \<and> int (length (normalizeFiles req)) > general_maxTotalFiles r) \<and>
    distinct (List.map_filter pathOf (normalizeFiles req)) \<and>
    i < length (normalizeFiles req) \<and> f = normalizeFiles req ! i \<and>
    bufferOrFile d f = Some b \<and>
    mime = (case fileType e b of Some (m, x) \<Rightarrow> m | None \<Rightarrow> mf_mimetype f) \<and>
    ext = (case fileType e b of Some (m, x) \<Rightarrow> x
           | None \<Rightarrow> toLowerCase (last (splitOn DOT (mf_originalname f)))) \<and>
    k = decideKind mime ext
    \<longrightarrow>
      (\<forall>t. rt = Some t \<and> t \<noteq> js ''mixed'' \<and> t \<noteq> kindName k \<longrightarrow>
         (\<exists>errs. fst (validateAndDispatchPure r e d req) = VdResponse 400 (ValidationFailed errs) \<and>
                 (i, ExpectedButDetected t k) \<in> set errs)) \<and>
      (rt = None \<or> rt = Some (js ''mixed'') \<or> rt = Some (kindName k) \<longrightarrow>
         (\<forall>why. fst (dispatch r e d (statSize d f) k) = Inl why \<longrightarrow>
            (\<exists>errs. fst (validateAndDispatchPure r e d req) = VdResponse 400 (ValidationFailed errs) \<and>
                    (i, why) \<in> set errs)) \<and>
         (\<forall>mt vs ks. fst (dispatch r e d (statSize d f) k) = Inr mt \<and>
            fst (validateAndDispatchPure r e d req) = VdNext vs ks \<longrightarrow>
            (\<exists>v \<in> set vs. vf_index v = i \<and> vf_type v = k \<and> vf_mime v = mime \<and>
                          vf_ext v = ext \<and> vf_meta v = mt))) \<and>
      (startsWith mime (js ''image/'') \<longrightarrow>
         k = KImage \<and> dispatch r e d (statSize d f) k = validateImage r e d (statSize d f))) \<and>
   (bufferOrFile d g = Some c \<and> fileType e c = Some (m', x') \<longrightarrow>
      fst (checkFile r e rt d (j, g\<lparr>mf_mimetype := t', mf_originalname := n'\<rparr>)) =
        map_sum id (\<lambda>v. v\<lparr>vf_originalname := n'\<rparr>) (fst (checkFile r e rt d (j, g)))) \<and>
   detectFileRule (g\<lparr>mf_buffer := c', mf_path := q'\<rparr>) = detectFileRule g"
proof -
  let ?res = "fst (validateAndDispatchPure r e d req)"
  let ?fs = "normalizeFiles req"
  have A: "requestedTypeOf req = Inr rt \<and>
    \<not> (general_maxTotalFiles r \<noteq> 0 \<and> int (length (normalizeFiles req)) > general_maxTotalFiles r) \<and>
    distinct (List.map_filter pathOf (normalizeFiles req)) \<and>
    i < length (normalizeFiles req) \<and> f = normalizeFiles req ! i \<and>
    bufferOrFile d f = Some b \<and>
    mime = (case fileType e b of Some (m, x) \<Rightarrow> m | None \<Rightarrow> mf_mimetype f) \<and>
    ext = (case fileType e b of Some (m, x) \<Rightarrow> x
           | None \<Rightarrow> toLowerCase (last (splitOn DOT (mf_originalname f)))) \<and>
    k = decideKind mime ext
    \<longrightarrow>
      (\<forall>t. rt = Some t \<and> t \<noteq> js ''mixed'' \<and> t \<noteq> kindName k \<longrightarrow>
         (\<exists>errs. ?res = VdResponse 400 (ValidationFailed errs) \<and>
                 (i, ExpectedButDetected t k) \<in> set errs)) \<and>
      (rt = None \<or> rt = Some (js ''mixed'') \<or> rt = Some (kindName k) \<longrightarrow>
         (\<forall>why. fst (dispatch r e d (statSize d f) k) = Inl why \<longrightarrow>
            (\<exists>errs. ?res = VdResponse 400 (ValidationFailed errs) \<and>
                    (i, why) \<in> set errs)) \<and>
         (\<forall>mt vs ks. fst (dispatch r e d (statSize d f) k) = Inr mt \<and>
            ?res = VdNext vs ks \<longrightarrow>
            (\<exists>v \<in> set vs. vf_index v = i \<and> vf_type v = k \<and> vf_mime v = mime \<and>
                          vf_ext v = ext \<and> vf_meta v = mt))) \<and>
      (startsWith mime (js ''image/'') \<longrightarrow>
         k = KImage \<and> dispatch r e d (statSize d f) k = validateImage r e d (statSize d f))"
  proof (rule impI)
    assume h: "requestedTypeOf req = Inr rt \<and>
      \<not> (general_maxTotalFiles r \<noteq> 0 \<and> int (length (normalizeFiles req)) > general_maxTotalFiles r) \<and>
      distinct (List.map_filter pathOf (normalizeFiles req)) \<and>
      i < length (normalizeFiles req) \<and> f = normalizeFiles req ! i \<and>
      bufferOrFile d f = Some b \<and>
      mime = (case fileType e b of Some (m, x) \<Rightarrow> m | None \<Rightarrow> mf_mimetype f) \<and>
      ext = (case fileType e b of Some (m, x) \<Rightarrow> x
             | None \<Rightarrow> toLowerCase (last (splitOn DOT (mf_originalname f)))) \<and>
      k = decideKind mime ext"
    then have ne: "?fs \<noteq> []"
      by auto
    have rr: "?res =
        (if failing r e rt d (enumerate 0 ?fs) \<noteq> []
         then VdResponse 400 (ValidationFailed (failing r e rt d (enumerate 0 ?fs)))
         else VdNext (passing r e rt d (enumerate 0 ?fs))
                (mediaTypes (passing r e rt d (enumerate 0 ?fs))))"
      using run_result(1)[where req = req and r = r and rt = rt and e = e and d = d] h ne by simp
    have mem: "(i, f) \<in> set (enumerate 0 ?fs)"
      using h by (simp add: in_set_enumerate_eq)
    have cv: "fst (checkFile r e rt d (i, f)) =
       (case (case rt of
                Some t \<Rightarrow> if t \<noteq> js ''mixed'' \<and> t \<noteq> kindName k then Some t else None
              | None \<Rightarrow> None) of
          Some t \<Rightarrow> Inl (ExpectedButDetected t k)
        | None \<Rightarrow>
            map_sum id
              (\<lambda>mt. \<lparr>vf_index = i, vf_originalname = mf_originalname f, vf_size = mf_size (statSize d f),
                     vf_mime = mime, vf_ext = ext, vf_type = k, vf_meta = mt,
                     vf_path = pathOf f\<rparr>)
              (fst (dispatch r e d (statSize d f) k)))"
    proof -
      have hb: "bufferOrFile d f = Some b"
        and hm: "mime = (case fileType e b of Some (m, x) \<Rightarrow> m | None \<Rightarrow> mf_mimetype f)"
        and hx: "ext = (case fileType e b of Some (m, x) \<Rightarrow> x
                        | None \<Rightarrow> toLowerCase (last (splitOn DOT (mf_originalname f))))"
        and hk: "k = decideKind mime ext"
        using h by blast+
      show ?thesis
        unfolding hk by (rule checkFile_verdict[OF hb hm hx])
    qed
    have rej: "\<exists>errs. ?res = VdResponse 400 (ValidationFailed errs) \<and> (i, why) \<in> set errs"
      if "fst (checkFile r e rt d (i, f)) = Inl why" for why
    proof -
      have "(i, why) \<in> set (failing r e rt d (enumerate 0 ?fs))"
        using mem that by (rule in_failing)
      then show ?thesis
        using rr by auto
    qed
    have acc: "v \<in> set vs"
      if "fst (checkFile r e rt d (i, f)) = Inr v" and "?res = VdNext vs ks" for v vs ks
    proof -
      have "v \<in> set (passing r e rt d (enumerate 0 ?fs))"
        using mem that(1) by (rule in_passing)
      then show ?thesis
        using rr that(2) by (auto split: if_splits)
    qed
    have c1: "\<forall>t. rt = Some t \<and> t \<noteq> js ''mixed'' \<and> t \<noteq> kindName k \<longrightarrow>
         (\<exists>errs. ?res = VdResponse 400 (ValidationFailed errs) \<and>
                 (i, ExpectedButDetected t k) \<in> set errs)"
    proof (intro allI impI)
      fix t
      assume "rt = Some t \<and> t \<noteq> js ''mixed'' \<and> t \<noteq> kindName k"
      then have "fst (checkFile r e rt d (i, f)) = Inl (ExpectedButDetected t k)"
        unfolding cv by simp
      then show "\<exists>errs. ?res = VdResponse 400 (ValidationFailed errs) \<and>
                 (i, ExpectedButDetected t k) \<in> set errs"
        by (rule rej)
    qed
    have c2: "rt = None \<or> rt = Some (js ''mixed'') \<or> rt = Some (kindName k) \<longrightarrow>
         (\<forall>why. fst (dispatch r e d (statSize d f) k) = Inl why \<longrightarrow>
            (\<exists>errs. ?res = VdResponse 400 (ValidationFailed errs) \<and>
                    (i, why) \<in> set errs)) \<and>
         (\<forall>mt vs ks. fst (dispatch r e d (statSize d f) k) = Inr mt \<and>
            ?res = VdNext vs ks \<longrightarrow>
            (\<exists>v \<in> set vs. vf_index v = i \<and> vf_type v = k \<and> vf_mime v = mime \<and>
                          vf_ext v = ext \<and> vf_meta v = mt))"
    proof (rule impI)
      assume "rt = None \<or> rt = Some (js ''mixed'') \<or> rt = Some (kindName k)"
      then have cv2: "fst (checkFile r e rt d (i, f)) =
            map_sum id
              (\<lambda>mt. \<lparr>vf_index = i, vf_originalname = mf_originalname f, vf_size = mf_size (statSize d f),
                     vf_mime = mime, vf_ext = ext, vf_type = k, vf_meta = mt,
                     vf_path = pathOf f\<rparr>)
              (fst (dispatch r e d (statSize d f) k))"
        unfolding cv by auto
      have p1: "\<forall>why. fst (dispatch r e d (statSize d f) k) = Inl why \<longrightarrow>
            (\<exists>errs. ?res = VdResponse 400 (ValidationFailed errs) \<and> (i, why) \<in> set errs)"
      proof (intro allI impI)
        fix why
        assume "fst (dispatch r e d (statSize d f) k) = Inl why"
        then have "fst (checkFile r e rt d (i, f)) = Inl why"
          by (simp add: cv2)
        then show "\<exists>errs. ?res = VdResponse 400 (ValidationFailed errs) \<and> (i, why) \<in> set errs"
          by (rule rej)
      qed
      have p2: "\<forall>mt vs ks. fst (dispatch r e d (statSize d f) k) = Inr mt \<and>
            ?res = VdNext vs ks \<longrightarrow>
            (\<exists>v \<in> set vs. vf_index v = i \<and> vf_type v = k \<and> vf_mime v = mime \<and>
                          vf_ext v = ext \<and> vf_meta v = mt)"
      proof (intro allI impI)
        fix mt vs ks
        assume a: "fst (dispatch r e d (statSize d f) k) = Inr mt \<and> ?res = VdNext vs ks"
        let ?v = "\<lparr>vf_index = i, vf_originalname = mf_originalname f, vf_size = mf_size (statSize d f),
                     vf_mime = mime, vf_ext = ext, vf_type = k, vf_meta = mt,
                     vf_path = pathOf f\<rparr>"
        have "fst (checkFile r e rt d (i, f)) = Inr ?v"
          using a by (simp add: cv2)
        then have "?v \<in> set vs"
          using a acc by blast
        then show "\<exists>v \<in> set vs. vf_index v = i \<and> vf_type v = k \<and> vf_mime v = mime \<and>
                          vf_ext v = ext \<and> vf_meta v = mt"
          by (intro bexI[of _ ?v]) simp_all
      qed
      show "(\<forall>why. fst (dispatch r e d (statSize d f) k) = Inl why \<longrightarrow>
            (\<exists>errs. ?res = VdResponse 400 (ValidationFailed errs) \<and>
                    (i, why) \<in> set errs)) \<and>
         (\<forall>mt vs ks. fst (dispatch r e d (statSize d f) k) = Inr mt \<and>
            ?res = VdNext vs ks \<longrightarrow>
            (\<exists>v \<in> set vs. vf_index v = i \<and> vf_type v = k \<and> vf_mime v = mime \<and>
                          vf_ext v = ext \<and> vf_meta v = mt))"
        using p1 p2 by (rule conjI)
    qed
    have c3: "startsWith mime (js ''image/'') \<longrightarrow>
         k = KImage \<and> dispatch r e d (statSize d f) k = validateImage r e d (statSize d f)"
      using h by (simp add: decideKind_def dispatch_def)
    show "(\<forall>t. rt = Some t \<and> t \<noteq> js ''mixed'' \<and> t \<noteq> kindName k \<longrightarrow>
         (\<exists>errs. ?res = VdResponse 400 (ValidationFailed errs) \<and>
                 (i, ExpectedButDetected t k) \<in> set errs)) \<and>
      (rt = None \<or> rt = Some (js ''mixed'') \<or> rt = Some (kindName k) \<longrightarrow>
         (\<forall>why. fst (dispatch r e d (statSize d f) k) = Inl why \<longrightarrow>
            (\<exists>errs. ?res = VdResponse 400 (ValidationFailed errs) \<and>
                    (i, why) \<in> set errs)) \<and>
         (\<forall>mt vs ks. fst (dispatch r e d (statSize d f) k) = Inr mt \<and>
            ?res = VdNext vs ks \<longrightarrow>
            (\<exists>v \<in> set vs. vf_index v = i \<and> vf_type v = k \<and> vf_mime v = mime \<and>
                          vf_ext v = ext \<and> vf_meta v = mt))) \<and>
      (startsWith mime (js ''image/'') \<longrightarrow>
         k = KImage \<and> dispatch r e d (statSize d f) k = validateImage r e d (statSize d f))"
      using c1 c2 c3 by (intro conjI)
  qed
  have B: "bufferOrFile d g = Some c \<and> fileType e c = Some (m', x') \<longrightarrow>
      fst (checkFile r e rt d (j, g\<lparr>mf_mimetype := t', mf_originalname := n'\<rparr>)) =
        map_sum id (\<lambda>v. v\<lparr>vf_originalname := n'\<rparr>) (fst (checkFile r e rt d (j, g)))"
    using checkFile_decl by blast
  have C: "detectFileRule (g\<lparr>mf_buffer := c', mf_path := q'\<rparr>) = detectFileRule g"
    by (simp add: detectFileRule_def)
  show ?thesis
    using A B C by (intro conjI)
qed

theorem category_from_content_or_declaration_witness:
  "(\<exists>vs ks. fst (validateAndDispatchPure RULES sampleEnv Map.empty (arrayRequest [evilPng])) = VdNext vs ks \<and>
      (\<exists>v \<in> set vs. vf_index v = 0 \<and> vf_type v = KImage \<and> vf_mime v = js ''image/png'' \<and>
         vf_ext v = js ''png'' \<and> vf_meta v = MetaImage 1 1)) \<and>
   (\<exists>errs. fst (validateAndDispatchPure RULES sampleEnv Map.empty
        (typedRequest (StringValue (js ''video'')) [evilPng])) = VdResponse 400 (ValidationFailed errs) \<and>
      (0, ExpectedButDetected (js ''video'') KImage) \<in> set errs) \<and>
   (\<exists>errs. fst (validateAndDispatchPure RULES sampleEnv Map.empty (arrayRequest [binFile])) =
        VdResponse 400 (ValidationFailed errs) \<and> (0, UnsupportedFileType) \<in> set errs) \<and>
   dispatch RULES sampleEnv Map.empty (statSize Map.empty evilPng) KImage =
     validateImage RULES sampleEnv Map.empty (statSize Map.empty evilPng) \<and>
   fst (checkFile RULES sampleEnv None Map.empty
          (0, evilPng\<lparr>mf_mimetype := js ''image/png'', mf_originalname := js ''a.png''\<rparr>)) =
     map_sum id (\<lambda>v. v\<lparr>vf_originalname := js ''a.png''\<rparr>)
       (fst (checkFile RULES sampleEnv None Map.empty (0, evilPng)))"
proof -
  let ?plain = "arrayRequest [evilPng]"
  let ?video = "typedRequest (StringValue (js ''video'')) [evilPng]"
  let ?bin = "arrayRequest [binFile]"
  have sn: "fileType sampleEnv PNG_SIGNATURE = Some (js ''image/png'', js ''png'')"
    by (simp add: sample_defs)
  have sb: "fileType sampleEnv [1, 2, 3] = None"
    by (simp add: sample_defs)
  have kp: "decideKind (js ''image/png'') (js ''png'') = KImage"
    by (simp add: decideKind_def startsWith_def js_def)
  have kb: "decideKind (js ''application/octet-stream'') (js ''bin'') = KUnknown"
    by (simp add: decideKind_def startsWith_def js_def)
  have xb: "toLowerCase (last (splitOn DOT (mf_originalname binFile))) = js ''bin''"
    by (simp add: toLowerCase_def asciiLower_def DOT_def sample_defs)
  have h1: "requestedTypeOf ?plain = Inr None \<and>
    \<not> (general_maxTotalFiles RULES \<noteq> 0 \<and> int (length (normalizeFiles ?plain)) > general_maxTotalFiles RULES) \<and>
    distinct (List.map_filter pathOf (normalizeFiles ?plain)) \<and>
    0 < length (normalizeFiles ?plain) \<and> evilPng = normalizeFiles ?plain ! 0 \<and>
    bufferOrFile Map.empty evilPng = Some PNG_SIGNATURE \<and>
    js ''image/png'' = (case fileType sampleEnv PNG_SIGNATURE of Some (m, x) \<Rightarrow> m | None \<Rightarrow> mf_mimetype evilPng) \<and>
    js ''png'' = (case fileType sampleEnv PNG_SIGNATURE of Some (m, x) \<Rightarrow> x
           | None \<Rightarrow> toLowerCase (last (splitOn DOT (mf_originalname evilPng)))) \<and>
    KImage = decideKind (js ''image/png'') (js ''png'')"
    unfolding sn kp
    by (simp add: requestedTypeOf_def orElse_def truthy_def toLowerCase_def normalizeFiles_def
        arrayRequest_def RULES_def pathOf_def bufferOrFile_def evilPng_def)
  have h2: "requestedTypeOf ?video = Inr (Some (js ''video'')) \<and>
    \<not> (general_maxTotalFiles RULES \<noteq> 0 \<and> int (length (normalizeFiles ?video)) > general_maxTotalFiles RULES) \<and>
    distinct (List.map_filter pathOf (normalizeFiles ?video)) \<and>
    0 < length (normalizeFiles ?video) \<and> evilPng = normalizeFiles ?video ! 0 \<and>
    bufferOrFile Map.empty evilPng = Some PNG_SIGNATURE \<and>
    js ''image/png'' = (case fileType sampleEnv PNG_SIGNATURE of Some (m, x) \<Rightarrow> m | None \<Rightarrow> mf_mimetype evilPng) \<and>
    js ''png'' = (case fileType sampleEnv PNG_SIGNATURE of Some (m, x) \<Rightarrow> x
           | None \<Rightarrow> toLowerCase (last (splitOn DOT (mf_originalname evilPng)))) \<and>
    KImage = decideKind (js ''image/png'') (js ''png'')"
    unfolding sn kp
    by (simp add: requestedTypeOf_def orElse_def truthy_def toLowerCase_def asciiLower_def normalizeFiles_def
        typedRequest_def RULES_def pathOf_def bufferOrFile_def evilPng_def js_def)
  have h3: "requestedTypeOf ?bin = Inr None \<and>
    \<not> (general_maxTotalFiles RULES \<noteq> 0 \<and> int (length (normalizeFiles ?bin)) > general_maxTotalFiles RULES) \<and>
    distinct (List.map_filter pathOf (normalizeFiles ?bin)) \<and>
    0 < length (normalizeFiles ?bin) \<and> binFile = normalizeFiles ?bin ! 0 \<and>
    bufferOrFile Map.empty binFile = Some [1, 2, 3] \<and>
    js ''application/octet-stream'' = (case fileType sampleEnv [1, 2, 3] of Some (m, x) \<Rightarrow> m | None \<Rightarrow> mf_mimetype binFile) \<and>
    js ''bin'' = (case fileType sampleEnv [1, 2, 3] of Some (m, x) \<Rightarrow> x
           | None \<Rightarrow> toLowerCase (last (splitOn DOT (mf_originalname binFile)))) \<and>
    KUnknown = decideKind (js ''application/octet-stream'') (js ''bin'')"
    unfolding sb kb xb
    by (simp add: requestedTypeOf_def orElse_def truthy_def toLowerCase_def normalizeFiles_def
        arrayRequest_def RULES_def pathOf_def bufferOrFile_def binFile_def)
  have v1: "js ''video'' \<noteq> js ''mixed'' \<and> js ''video'' \<noteq> kindName KImage"
    by (simp add: js_def)
  have d1: "fst (dispatch RULES sampleEnv Map.empty (statSize Map.empty evilPng) KImage) = Inr (MetaImage 1 1)"
    by (simp add: vd_defs sample_defs)
  have d3: "fst (dispatch RULES sampleEnv Map.empty (statSize Map.empty binFile) KUnknown) = Inl UnsupportedFileType"
    by (simp add: dispatch_def)
  have i1: "startsWith (js ''image/png'') (js ''image/'')"
    by (simp add: startsWith_def js_def)
  obtain vs ks where r1: "fst (validateAndDispatchPure RULES sampleEnv Map.empty ?plain) = VdNext vs ks"
    by (simp add: vd_defs sample_defs)
  have g1: "bufferOrFile Map.empty evilPng = Some PNG_SIGNATURE \<and>
      fileType sampleEnv PNG_SIGNATURE = Some (js ''image/png'', js ''png'')"
    using h1 sn by blast
  note t1 = category_from_content_or_declaration[where req = ?plain and rt = None and r = RULES
      and i = 0 and f = evilPng and d = Map.empty and b = PNG_SIGNATURE and e = sampleEnv
      and mime = "js ''image/png''" and ext = "js ''png''" and k = KImage and g = evilPng
      and c = PNG_SIGNATURE and m' = "js ''image/png''" and x' = "js ''png''" and j = 0
      and t' = "js ''image/png''" and n' = "js ''a.png''" and c' = None and q' = None]
  note t2 = category_from_content_or_declaration[where req = ?video and rt = "Some (js ''video'')" and r = RULES
      and i = 0 and f = evilPng and d = Map.empty and b = PNG_SIGNATURE and e = sampleEnv
      and mime = "js ''image/png''" and ext = "js ''png''" and k = KImage and g = evilPng
      and c = PNG_SIGNATURE and m' = "js ''image/png''" and x' = "js ''png''" and j = 0
      and t' = "js ''image/png''" and n' = "js ''a.png''" and c' = None and q' = None]
  note t3 = category_from_content_or_declaration[where req = ?bin and rt = None and r = RULES
      and i = 0 and f = binFile and d = Map.empty and b = "[1, 2, 3]" and e = sampleEnv
      and mime = "js ''application/octet-stream''" and ext = "js ''bin''" and k = KUnknown and g = evilPng
      and c = PNG_SIGNATURE and m' = "js ''image/png''" and x' = "js ''png''" and j = 0
      and t' = "js ''image/png''" and n' = "js ''a.png''" and c' = None and q' = None]
  from t1 h1 d1 r1 have a: "\<exists>v \<in> set vs. vf_index v = 0 \<and> vf_type v = KImage \<and> vf_mime v = js ''image/png'' \<and>
         vf_ext v = js ''png'' \<and> vf_meta v = MetaImage 1 1"
    by blast
  from t1 h1 i1 have a2: "dispatch RULES sampleEnv Map.empty (statSize Map.empty evilPng) KImage =
     validateImage RULES sampleEnv Map.empty (statSize Map.empty evilPng)"
    by blast
  from t1 g1 have a3: "fst (checkFile RULES sampleEnv None Map.empty
          (0, evilPng\<lparr>mf_mimetype := js ''image/png'', mf_originalname := js ''a.png''\<rparr>)) =
     map_sum id (\<lambda>v. v\<lparr>vf_originalname := js ''a.png''\<rparr>)
       (fst (checkFile RULES sampleEnv None Map.empty (0, evilPng)))"
    by blast
  from t2 h2 v1 have b: "\<exists>errs. fst (validateAndDispatchPure RULES sampleEnv Map.empty ?video) =
        VdResponse 400 (ValidationFailed errs) \<and> (0, ExpectedButDetected (js ''video'') KImage) \<in> set errs"
    by blast
  from t3 h3 d3 have c: "\<exists>errs. fst (validateAndDispatchPure RULES sampleEnv Map.empty ?bin) =
        VdResponse 400 (ValidationFailed errs) \<and> (0, UnsupportedFileType) \<in> set errs"
    by blast
  show ?thesis
    using r1 a a2 a3 b c by blast
qed

text \<open>
  The claim as stated fails for \<open>detectFileRule\<close>: PNG bytes named \<open>evil.txt\<close> and
  declared \<open>text/plain\<close> are classified as text and accepted under the text rule.
\<close>

theorem detectFileRule_trusts_declared_type:
  "map_option fr_category (detectFileRule evilPng) = Some CatText \<and>
   mediaValidationMiddleware (arrayRequest [evilPng]) = MvNext [(evilPng, CatText)]"
  by (simp add: mv_defs sample_defs)




lemma find_append_split:
  "find P (xs @ ys) = (case find P xs of Some x \<Rightarrow> Some x | None \<Rightarrow> find P ys)"
  by (induction xs) auto

text \<open>
  Claim C10, as the code has it. A batch with an empty file is always answered
  with status 400 and nothing is handed on. The code is \<open>EMPTY_FILE\<close> when every file
  before the empty one passes; otherwise it is the error of the first failing file
  before it, whose type and size checks have run by then.
\<close>

theorem empty_file_rejected:
  "requestFiles req = pre @ x # post \<and> (mf_size x = None \<or> mf_size x = Some 0) \<longrightarrow>
     (\<exists>b. mediaValidationMiddleware req = MvResponse 400 b) \<and>
     ((\<forall>f \<in> set pre. \<not> isl (mvCheck f)) \<longrightarrow>
        mediaValidationMiddleware req = MvResponse 400 (EMPTY_FILE (mf_originalname x))) \<and>
     (\<forall>g. find (\<lambda>f. isl (mvCheck f)) pre = Some g \<longrightarrow>
        mediaValidationMiddleware req = MvResponse 400 (projl (mvCheck g)))"
proof (intro impI)
  assume a: "requestFiles req = pre @ x # post \<and> (mf_size x = None \<or> mf_size x = Some 0)"
  then have x: "mvCheck x = Inl (EMPTY_FILE (mf_originalname x))"
    by (auto simp: mvCheck_def)
  have mw: "mediaValidationMiddleware req =
      (case find (\<lambda>f. isl (mvCheck f)) (pre @ x # post) of
         Some f \<Rightarrow> MvResponse 400 (projl (mvCheck f))
       | None \<Rightarrow> MvNext ([] @ map (\<lambda>f. projr (mvCheck f)) (pre @ x # post)))"
    using a by (simp add: mediaValidationMiddleware_def mvLoop_char Let_def)
  have f1: "\<And>g. find (\<lambda>f. isl (mvCheck f)) pre = Some g \<Longrightarrow>
      find (\<lambda>f. isl (mvCheck f)) (pre @ x # post) = Some g"
    by (simp add: find_append_split)
  have f2: "find (\<lambda>f. isl (mvCheck f)) pre = None \<Longrightarrow>
      find (\<lambda>f. isl (mvCheck f)) (pre @ x # post) = Some x"
    using x by (simp add: find_append_split)
  have p3: "\<forall>g. find (\<lambda>f. isl (mvCheck f)) pre = Some g \<longrightarrow>
        mediaValidationMiddleware req = MvResponse 400 (projl (mvCheck g))"
    using f1 mw by simp
  have p2: "(\<forall>f \<in> set pre. \<not> isl (mvCheck f)) \<longrightarrow>
        mediaValidationMiddleware req = MvResponse 400 (EMPTY_FILE (mf_originalname x))"
  proof
    assume "\<forall>f \<in> set pre. \<not> isl (mvCheck f)"
    then have "find (\<lambda>f. isl (mvCheck f)) pre = None"
      by (simp add: find_None_iff)
    then show "mediaValidationMiddleware req = MvResponse 400 (EMPTY_FILE (mf_originalname x))"
      using f2 mw x by simp
  qed
  have p1: "\<exists>b. mediaValidationMiddleware req = MvResponse 400 b"
  proof (cases "find (\<lambda>f. isl (mvCheck f)) pre")
    case None
    then show ?thesis using f2 mw by simp
  next
    case (Some g)
    then show ?thesis using p3 by simp
  qed
  show "(\<exists>b. mediaValidationMiddleware req = MvResponse 400 b) \<and>
     ((\<forall>f \<in> set pre. \<not> isl (mvCheck f)) \<longrightarrow>
        mediaValidationMiddleware req = MvResponse 400 (EMPTY_FILE (mf_originalname x))) \<and>
     (\<forall>g. find (\<lambda>f. isl (mvCheck f)) pre = Some g \<longrightarrow>
        mediaValidationMiddleware req = MvResponse 400 (projl (mvCheck g)))"
    using p1 p2 p3 by (intro conjI)
qed

theorem empty_file_rejected_witness:
  "mediaValidationMiddleware (arrayRequest [evilPng, emptyPng, binFile]) =
     MvResponse 400 (EMPTY_FILE (js ''e.png''))"
proof -
  let ?req = "arrayRequest [evilPng, emptyPng, binFile]"
  have h: "requestFiles ?req = [evilPng] @ emptyPng # [binFile] \<and>
      (mf_size emptyPng = None \<or> mf_size emptyPng = Some 0)"
    by (simp add: requestFiles_def arrayRequest_def emptyPng_def)
  have m0: "\<forall>f \<in> set [evilPng]. \<not> isl (mvCheck f)"
    by (simp add: mv_defs sample_defs)
  have n: "mf_originalname emptyPng = js ''e.png''"
    by (simp add: emptyPng_def)
  from empty_file_rejected[of ?req "[evilPng]" emptyPng "[binFile]"] h m0
  have "mediaValidationMiddleware ?req = MvResponse 400 (EMPTY_FILE (mf_originalname emptyPng))"
    by blast
  then show ?thesis unfolding n .
qed

text \<open>
  The claim as stated fails: an empty file after a file of a type that is not
  allowed is answered with \<open>INVALID_FILE_TYPE\<close>.
\<close>

theorem empty_file_after_invalid_file:
  "mf_size emptyPng = Some 0 \<and>
   mediaValidationMiddleware (arrayRequest [binFile, emptyPng]) =
     MvResponse 400 (INVALID_FILE_TYPE (js ''x.bin''))"
  by (simp add: mv_defs sample_defs)

text \<open>
  Claim C8, as the code has it. In a run of \<open>validateAndDispatchPure\<close> on files whose
  paths on disk are distinct, a decoder (image decoding, PDF parsing, media
  probing) is called on a file only if the size recorded for the file (its size
  field, or the size on disk filled in for a file without one) does not exceed the
  nonzero byte limit of its detected kind. The signature sniff is not held back by
  the size: when the loop runs (requested type absent or a string, number of files
  within the limit) every file with a buffer or a path is sniffed. When the loop
  does not run (no files, too many files, a requested type that is not a string)
  no library call is made.
\<close>

theorem decoding_only_within_size_limit:
  "(distinct (List.map_filter pathOf (normalizeFiles req)) \<and>
    (i, w) \<in> set (snd (snd (validateAndDispatchPure r e d req))) \<and> w \<noteq> Sniff
    \<longrightarrow>
      i < length (normalizeFiles req) \<and>
      overLimit (mf_size (statSize d (normalizeFiles req ! i)))
        (maxBytesFor r (fileKind e d (normalizeFiles req ! i))) = None) \<and>
   (requestedTypeOf req = Inr rt \<and>
    \<not> (general_maxTotalFiles r \<noteq> 0 \<and> int (length (normalizeFiles req)) > general_maxTotalFiles r) \<and>
    j < length (normalizeFiles req) \<and>
    (mf_buffer (normalizeFiles req ! j) \<noteq> None \<or> pathOf (normalizeFiles req ! j) \<noteq> None)
    \<longrightarrow>
      (j, Sniff) \<in> set (snd (snd (validateAndDispatchPure r e d req)))) \<and>
   (normalizeFiles req = [] \<or>
    (general_maxTotalFiles r \<noteq> 0 \<and> int (length (normalizeFiles req)) > general_maxTotalFiles r) \<or>
    requestedTypeOf req = Inl err
    \<longrightarrow> snd (snd (validateAndDispatchPure r e d req)) = [])"
proof -
  let ?fs = "normalizeFiles req"
  let ?run = "validateAndDispatchPure r e d req"
  let ?over = "general_maxTotalFiles r \<noteq> 0 \<and> int (length ?fs) > general_maxTotalFiles r"
  let ?st0 = "\<lparr>vs_errors = [], vs_validated = [], vs_disk = d, vs_trace = []\<rparr>"
  have C: "?fs = [] \<or> ?over \<or> requestedTypeOf req = Inl err \<longrightarrow> snd (snd ?run) = []"
    by (auto simp: validateAndDispatchPure_def Let_def)
  have A: "distinct (List.map_filter pathOf ?fs) \<and> (i, w) \<in> set (snd (snd ?run)) \<and> w \<noteq> Sniff
    \<longrightarrow>
      i < length ?fs \<and>
      overLimit (mf_size (statSize d (?fs ! i))) (maxBytesFor r (fileKind e d (?fs ! i))) = None"
  proof (rule impI)
    assume a: "distinct (List.map_filter pathOf ?fs) \<and> (i, w) \<in> set (snd (snd ?run)) \<and> w \<noteq> Sniff"
    show "i < length ?fs \<and>
      overLimit (mf_size (statSize d (?fs ! i))) (maxBytesFor r (fileKind e d (?fs ! i))) = None"
    proof (cases "requestedTypeOf req")
      case (Inl x)
      then have "snd (snd ?run) = []"
        by (auto simp: validateAndDispatchPure_def Let_def)
      then show ?thesis
        using a by simp
    next
      case (Inr t)
      show ?thesis
      proof (cases "?fs \<noteq> [] \<and> \<not> ?over")
        case True
        then have "snd (snd ?run) = workOf r e t d (enumerate 0 ?fs)"
          using a Inr run_result(2)[where req = req and r = r and rt = t and e = e and d = d] by simp
        then obtain f where f: "(i, f) \<in> set (enumerate 0 ?fs)"
          and w: "w \<in> set (snd (checkFile r e t d (i, f)))"
          using a in_workOf[of i w r e t d "enumerate 0 ?fs"] by auto
        from f have i: "i < length ?fs" and fi: "f = ?fs ! i"
          by (simp_all add: in_set_enumerate_eq)
        show ?thesis
          using checkFile_work[OF w] a i fi by simp
      next
        case False
        then have "snd (snd ?run) = []"
          by (auto simp: validateAndDispatchPure_def Let_def)
        then show ?thesis
          using a by simp
      qed
    qed
  qed
  have B: "requestedTypeOf req = Inr rt \<and> \<not> ?over \<and> j < length ?fs \<and>
    (mf_buffer (?fs ! j) \<noteq> None \<or> pathOf (?fs ! j) \<noteq> None)
    \<longrightarrow> (j, Sniff) \<in> set (snd (snd ?run))"
  proof (rule impI)
    assume b: "requestedTypeOf req = Inr rt \<and> \<not> ?over \<and> j < length ?fs \<and>
      (mf_buffer (?fs ! j) \<noteq> None \<or> pathOf (?fs ! j) \<noteq> None)"
    then have ne: "?fs \<noteq> []"
      by auto
    have tr: "snd (snd ?run) = vs_trace (foldl (fileStep r e rt) ?st0 (enumerate 0 ?fs))"
      using b ne by (auto simp: validateAndDispatchPure_def Let_def)
    have "(j, ?fs ! j) \<in> set (enumerate 0 ?fs)"
      using b by (simp add: in_set_enumerate_eq)
    then show "(j, Sniff) \<in> set (snd (snd ?run))"
      unfolding tr using b by (intro run_sniffs) auto
  qed
  show ?thesis
    using A B C by (intro conjI)
qed

theorem decoding_only_within_size_limit_witness:
  "snd (snd (validateAndDispatchPure RULES sampleEnv Map.empty (arrayRequest [bigPng, evilPng]))) =
     [(0, Sniff), (1, Sniff), (1, DecodeImage)] \<and>
   overLimit (mf_size evilPng) (image_maxBytes RULES) = None \<and>
   overLimit (mf_size bigPng) (image_maxBytes RULES) = Some 10485768 \<and>
   snd (snd (validateAndDispatchPure RULES sampleEnv Map.empty
     (typedRequest (OtherValue True) [bigPng, evilPng]))) = []"
proof -
  let ?req = "arrayRequest [bigPng, evilPng]"
  let ?bad = "typedRequest (OtherValue True) [bigPng, evilPng]"
  have nf: "normalizeFiles ?req = [bigPng, evilPng]"
    by (simp add: normalizeFiles_def arrayRequest_def)
  have rt: "requestedTypeOf ?req = Inr None"
    by (simp add: requestedTypeOf_def orElse_def truthy_def arrayRequest_def toLowerCase_def)
  have rb: "requestedTypeOf ?bad = Inl ToLowerCaseIsNotAFunction"
    by (simp add: requestedTypeOf_def orElse_def truthy_def typedRequest_def)
  have tr: "snd (snd (validateAndDispatchPure RULES sampleEnv Map.empty ?req)) =
     [(0, Sniff), (1, Sniff), (1, DecodeImage)]"
    by (simp add: vd_defs sample_defs2)
  have h1: "distinct (List.map_filter pathOf (normalizeFiles ?req)) \<and>
    (1, DecodeImage) \<in> set (snd (snd (validateAndDispatchPure RULES sampleEnv Map.empty ?req))) \<and>
    DecodeImage \<noteq> Sniff"
    unfolding tr nf by (simp add: pathOf_def sample_defs2)
  have h2: "requestedTypeOf ?req = Inr None \<and>
    \<not> (general_maxTotalFiles RULES \<noteq> 0 \<and> int (length (normalizeFiles ?req)) > general_maxTotalFiles RULES) \<and>
    0 < length (normalizeFiles ?req) \<and>
    (mf_buffer (normalizeFiles ?req ! 0) \<noteq> None \<or> pathOf (normalizeFiles ?req ! 0) \<noteq> None)"
    unfolding nf using rt by (simp add: RULES_def bigPng_def)
  have h3: "normalizeFiles ?bad = [] \<or>
    (general_maxTotalFiles RULES \<noteq> 0 \<and> int (length (normalizeFiles ?bad)) > general_maxTotalFiles RULES) \<or>
    requestedTypeOf ?bad = Inl ToLowerCaseIsNotAFunction"
    using rb by simp
  have k: "maxBytesFor RULES (fileKind sampleEnv Map.empty evilPng) = image_maxBytes RULES"
    by (simp add: maxBytesFor_def fileKind_def vd_defs sample_defs)
  have s: "statSize Map.empty evilPng = evilPng"
    by (simp add: statSize_def evilPng_def)
  note t = decoding_only_within_size_limit[where req = ?req and i = 1 and w = DecodeImage
      and r = RULES and e = sampleEnv and d = Map.empty and j = 0 and rt = None
      and err = ToLowerCaseIsNotAFunction]
  note t' = decoding_only_within_size_limit[where req = ?bad and i = 1 and w = DecodeImage
      and r = RULES and e = sampleEnv and d = Map.empty and j = 0 and rt = None
      and err = ToLowerCaseIsNotAFunction]
  from t h1 have "overLimit (mf_size (statSize Map.empty (normalizeFiles ?req ! 1)))
        (maxBytesFor RULES (fileKind sampleEnv Map.empty (normalizeFiles ?req ! 1))) = None"
    by blast
  then have a: "overLimit (mf_size evilPng) (image_maxBytes RULES) = None"
    unfolding nf by (simp add: s k)
  from t h2 have "(0, Sniff) \<in> set (snd (snd (validateAndDispatchPure RULES sampleEnv Map.empty ?req)))"
    by blast
  have b: "overLimit (mf_size bigPng) (image_maxBytes RULES) = Some 10485768"
    by (simp add: overLimit_def bigPng_def RULES_def)
  from t' h3 have c: "snd (snd (validateAndDispatchPure RULES sampleEnv Map.empty ?bad)) = []"
    by blast
  show ?thesis
    using tr a b c by (intro conjI)
qed

text \<open>
  The claim as stated fails: a PNG above the image limit is sniffed before it is
  rejected for its size, and a buffer above the limit that comes without a size
  field is sniffed and decoded.
\<close>

theorem work_on_oversized_files:
  "validateAndDispatchPure RULES sampleEnv Map.empty (arrayRequest [bigPng]) =
     (VdResponse 400 (ValidationFailed [(0, FileTooLarge 10485768)]), Map.empty, [(0, Sniff)]) \<and>
   mf_buffer unsizedPng = Some (PNG_SIGNATURE @ replicate 10485760 0) \<and>
   int (length (PNG_SIGNATURE @ replicate 10485760 0)) > image_maxBytes RULES \<and>
   snd (snd (validateAndDispatchPure RULES sampleEnv Map.empty (arrayRequest [unsizedPng]))) =
     [(0, Sniff), (0, DecodeImage)]"
  by (simp add: vd_defs sample_defs2)

section \<open>Properties of the storage pipeline\<close>

lemma fs_writeFile_result:
  "fs_writeFile ft s p b = Inr s' \<Longrightarrow> s' = s(p \<mapsto> File b)"
  by (auto simp: fs_writeFile_def split: if_splits)

lemma fs_rename_result:
  "fs_rename ft s src dst = Inr s' \<Longrightarrow> s src = Some (File b) \<Longrightarrow> s' dst = Some (File b)"
  by (auto simp: fs_rename_def split: if_splits option.splits node.splits)

lemma writeFileAtomic_success:
  assumes "writeFileAtomic ft rnd s t b = (Inr u, s')"
  shows "s' t = Some (File b)"
proof -
  from assms obtain s1 s2 where
    w: "fs_writeFile ft s1 (t @ js ''.tmp-'' @ rnd) b = Inr s2"
    and r: "fs_rename ft s2 (t @ js ''.tmp-'' @ rnd) t = Inr s'"
    by (auto simp: writeFileAtomic_def Let_def split: sum.splits)
  have "s2 (t @ js ''.tmp-'' @ rnd) = Some (File b)"
    using fs_writeFile_result[OF w] by simp
  then show ?thesis
    by (rule fs_rename_result[OF r])
qed

lemma fs_mkdirp_preserves_files:
  assumes "fs_mkdirp ft s p = Inr s'" and "s q = Some (File c)"
  shows "s' q = Some (File c)"
proof -
  from assms(1) have nofile: "\<not> list_ex (\<lambda>q. case s q of Some (File b) \<Rightarrow> True | _ \<Rightarrow> False) (p # ancestors p)"
    and s': "s' = (\<lambda>q. if q \<in> set (p # ancestors p) then Some Dir else s q)"
    by (auto simp: fs_mkdirp_def split: if_splits)
  have "q \<notin> set (p # ancestors p)"
  proof
    assume "q \<in> set (p # ancestors p)"
    then have "list_ex (\<lambda>q. case s q of Some (File b) \<Rightarrow> True | _ \<Rightarrow> False) (p # ancestors p)"
      unfolding list_ex_iff using assms(2) by (intro bexI[of _ q]) auto
    then show False using nofile by simp
  qed
  then show ?thesis using s' assms(2) by simp
qed

lemma fs_readFile_file:
  "fs_readFile ft s p = Inr c \<Longrightarrow> s p = Some (File b) \<Longrightarrow> c = b"
  by (auto simp: fs_readFile_def split: if_splits)

lemma safeRm_outside:
  "\<not> isWithin p q \<Longrightarrow> safeRm ft s p q = s q"
  by (simp add: safeRm_def fs_rm_rf_def)

lemma safeRm_idem: "safeRm ft (safeRm ft s p) p = safeRm ft s p"
  by (auto simp: safeRm_def fs_rm_rf_def)

lemma safeRm_absent:
  "\<forall>q. isWithin p q \<longrightarrow> s q = None \<Longrightarrow> safeRm ft s p = s"
  by (auto simp: safeRm_def fs_rm_rf_def)

lemma computeMetadata_file:
  "computeMetadata env s p fn pr = Inr r \<Longrightarrow> s p = Some (File b) \<Longrightarrow>
     cr_sha256 r = se_sha256 env b \<and> cr_size_bytes r = length b"
  by (auto simp: computeMetadata_def fs_stat_size_def fs_readFile_def buildResult_def
      split: sum.splits if_splits)

lemma saveTempFiles_single:
  assumes "saveTempFiles env s0 [f] = (Inr (tempId, recs), s1, lg1)" and "mf_buffer f = Some b"
  shows "\<exists>dir. sessionDir env tempId = Inr dir \<and> s1 (path_join [dir, showNat 0]) = Some (File b)"
proof -
  from assms(1) obtain dir sa where
    tid: "tempId = se_uuid env 0"
    and dir: "safeJoin (se_cwd env) (TEMP_ROOT env) (se_uuid env 0) = Inr dir"
    and all: "saveAll env dir sa (enumerate 0 [f]) [] = (Inr recs, s1)"
    by (auto simp: saveTempFiles_def Let_def split: sum.splits prod.splits)
  from all obtain rec where one: "saveOne env dir sa (0, f) = (Inr rec, s1)"
    by (auto split: sum.splits prod.splits)
  then obtain u where
    "writeFileAtomic (se_faults env) (se_randomHex env 0) sa (path_join [dir, showNat 0]) b = (Inr u, s1)"
    using assms(2) by (auto simp: saveOne_def Let_def split: sum.splits prod.splits)
  then have "s1 (path_join [dir, showNat 0]) = Some (File b)"
    by (rule writeFileAtomic_success)
  then show ?thesis
    using dir tid by (auto simp: sessionDir_def)
qed

lemma commitOne_no_hook:
  assumes c: "commitOne env dir fb options k s m = (Inr (Some r), s', lg)"
    and h: "se_processHook env = None"
    and t: "s (path_join [dir, showNat (cm_tempIndex m)]) = Some (File b)"
    and p: "safeJoin (se_cwd env) fb (finalFilename m) = Inr p"
  shows "s' p = Some (File b) \<and> cr_sha256 r = se_sha256 env b \<and> cr_size_bytes r = length b"
proof -
  let ?tp = "path_join [dir, showNat (cm_tempIndex m)]"
  from c have ex: "pathExists (se_faults env) s ?tp"
    by (auto simp: commitOne_def Let_def split: if_splits)
  from c ex p obtain buffer pr where
    rd: "fs_readFile (se_faults env) s ?tp = Inr buffer"
    and wf: "writeFinal env k s ?tp p (finalFilename m) (cm_tempIndex m) buffer = (Inr pr, s', lg)"
    and md: "computeMetadata env s' p (finalFilename m) pr = Inr r"
    by (auto simp: commitOne_def Let_def split: sum.splits prod.splits)
  have b: "buffer = b"
    using fs_readFile_file[OF rd t] .
  from wf h obtain u where
    "writeFileAtomic (se_faults env) (se_randomHex env (2 * k)) s p b = (Inr u, s')"
    unfolding b by (auto simp: writeFinal_def split: sum.splits prod.splits)
  then have "s' p = Some (File b)"
    by (rule writeFileAtomic_success)
  then show ?thesis
    using computeMetadata_file[OF md] by simp
qed

subsection \<open>Evaluating the sample storage\<close>

text \<open>
  String literals are compared as strings, and the paths of the sample are computed
  once, so that the operations on the sample disk evaluate step by step.
\<close>

lemma unat_of_char: "unat (of_char c :: jschar) = of_char c"
proof -
  have "(of_char c :: jschar) = of_nat (of_char c)"
    by (simp add: of_nat_of_char)
  then have "unat (of_char c :: jschar) = (of_char c :: nat) mod 2 ^ 16"
    by (simp add: unat_of_nat)
  moreover have "(of_char c :: nat) < 2 ^ 16"
    by (rule less_trans[OF nat_of_char_less_256]) simp
  ultimately show ?thesis by simp
qed

lemma of_char_word_eq_iff: "(of_char c :: jschar) = of_char d \<longleftrightarrow> c = d"
proof
  assume "(of_char c :: jschar) = of_char d"
  then have "unat (of_char c :: jschar) = unat (of_char d :: jschar)" by simp
  then show "c = d" by (simp add: unat_of_char)
qed simp

lemma js_eq_iff [simp]: "js a = js b \<longleftrightarrow> a = b"
proof (induction a arbitrary: b)
  case Nil
  then show ?case by (cases b) (simp_all add: js_def)
next
  case (Cons x xs)
  then show ?case by (cases b) (auto simp: js_def of_char_word_eq_iff)
qed

lemma js_append [simp]: "js a @ js b = js (a @ b)"
  by (simp add: js_def)

lemma js_append_lit [simp]: "js a @ (js b @ r) = js (a @ b) @ r"
  by (simp add: js_def)

lemma js_Nil [simp]: "js a = [] \<longleftrightarrow> a = []" "[] = js a \<longleftrightarrow> a = []"
  by (auto simp: js_def)


lemmas path_eval = safeJoin_def path_defs path_join_def path_normalize_def path_dirname_def
  path_relative_def absToPublicPath_def ancestors_def showNat.simps

lemma sample_roots:
  "TEMP_ROOT sampleStorage = js ''/data/temp''"
  "FINAL_ROOT sampleStorage = js ''/data/media''"
  by (simp_all add: TEMP_ROOT_def FINAL_ROOT_def tempDir_def finalRoot_def usesHostPath_def
      sampleStorage_def sampleConfig_def path_eval del: js_eq_iff js_append js_append_lit js_Nil)

lemma sample_paths:
  "safeJoin (js ''/app'') (js ''/data/temp'') (js ''t1'') = Inr (js ''/data/temp/t1'')"
  "path_join [js ''/data/temp/t1'', showNat 0] = js ''/data/temp/t1/0''"
  "path_join [js ''/data/temp/t1'', showNat 5] = js ''/data/temp/t1/5''"
  "path_dirname (js ''/data/temp/t1/0'') = js ''/data/temp/t1''"
  "path_dirname (js ''/data/temp/t1/0.tmp-0a1b2c3d4e5f'') = js ''/data/temp/t1''"
  "ancestors (js ''/data/temp/t1'') = [js ''/'', js ''/data'', js ''/data/temp'']"
  "safeJoin (js ''/app'') (js ''/data/media'') (js ''books/1'') = Inr (js ''/data/media/books/1'')"
  "safeJoin (js ''/app'') (js ''/data/media/books/1'') (js ''cover.webp'') =
     Inr (js ''/data/media/books/1/cover.webp'')"
  "path_dirname (js ''/data/media/books/1/cover.webp'') = js ''/data/media/books/1''"
  "path_dirname (js ''/data/media/books/1/cover.webp.tmp-0a1b2c3d4e5f'') = js ''/data/media/books/1''"
  "ancestors (js ''/data/media/books/1'') =
     [js ''/'', js ''/data'', js ''/data/media'', js ''/data/media/books'']"
  "absToPublicPath (js ''/app'') (js ''/data/media'') (js ''/data/media/books/1/cover.webp'') =
     Inr (js ''books/1/cover.webp'')"
  "dropWhile (\<lambda>c. c = SLASH) (js ''books/1'') = js ''books/1''"
  by (simp_all add: path_eval upt_rec[of _ "Suc _"] del: js_eq_iff js_append js_append_lit js_Nil)

lemma sample_names:
  "sanitizeFilename (js ''evil.txt'') = js ''evil.txt''"
  "finalFilename coverMapping = js ''cover.webp''"
  by (simp_all add: finalFilename_def coverMapping_def sanitizeFilename_def basename_def
      replaceUnsafe_def isSafeChar_def isSpace_def trimUnderscores_def dropTrailing_def
      SLASH_def UNDERSCORE_def js_def del: js_eq_iff js_append js_append_lit js_Nil)

lemma sample_fields:
  "se_config sampleStorage = sampleConfig"
  "se_cwd sampleStorage = js ''/app''"
  "se_faults sampleStorage = (\<lambda>op. False)"
  "se_randomHex sampleStorage = (\<lambda>n. js ''0a1b2c3d4e5f'')"
  "se_uuid sampleStorage = (\<lambda>n. js ''t1'')"
  "se_processHook sampleStorage = None"
  by (simp_all add: sampleStorage_def)

lemmas fs_eval = ensureDir_def fs_mkdirp_def writeFileAtomic_def fs_writeFile_def fs_rename_def
  fs_readFile_def fs_stat_size_def fs_rm_rf_def safeRm_def pathExists_def
  sample_fields sample_roots sample_paths sample_names Let_def

lemma staging_sample:
  "saveTempFiles sampleStorage Map.empty [evilPng] =
     (Inr (js ''t1'', [\<lparr>tf_index = 0, tf_originalName = js ''evil.txt'', tf_mime = js ''text/plain'',
        tf_size = Some 8, tf_tempPath = js ''/data/temp/t1/0''\<rparr>]),
      stagedFs, [InfoSaved 1 (js ''t1'')])"
  by (auto simp: saveTempFiles_def saveOne_def fs_eval evilPng_def stagedFs_def fun_eq_iff)

lemma SLASH_js: "[SLASH] = js ''/''"
  by (simp add: SLASH_def js_def del: js_eq_iff js_append js_append_lit js_Nil)

lemma prefix_js [simp]: "prefix (js a) (js b) \<longleftrightarrow> prefix a b"
proof (induction a arbitrary: b)
  case Nil
  then show ?case by (simp add: js_def del: js_eq_iff js_append js_append_lit js_Nil)
next
  case (Cons x xs)
  have c: "\<And>y ys. prefix (js (x # xs)) (js (y # ys)) \<longleftrightarrow> x = y \<and> prefix (js xs) (js ys)"
    by (simp add: js_def of_char_word_eq_iff del: js_eq_iff js_append js_append_lit js_Nil)
  show ?case
  proof (cases b)
    case Nil
    then show ?thesis by (simp add: js_def del: js_eq_iff js_append js_append_lit js_Nil)
  next
    case (Cons y ys)
    then show ?thesis using c Cons.IH by simp
  qed
qed

lemma coverMapping_index: "cm_tempIndex coverMapping = 0"
  by (simp add: coverMapping_def)

lemma sample_url:
  "publicPathToUrl sampleConfig (js ''books/1/cover.webp'') =
     js ''http://localhost:4000/books/1/cover.webp''"
  by (simp add: publicPathToUrl_def sampleConfig_def SLASH_def js_def
      del: js_eq_iff js_append js_append_lit js_Nil)

lemma commit_sample:
  "commitTempToFinal sampleStorage stagedFs (js ''t1'') (js ''books/1'') [coverMapping] None =
     (Inr [coverRecord], committedFs, [InfoCommitted 1 (js ''t1'') (js ''books/1'')])"
  by (auto simp: commitTempToFinal_def commitOne_def writeFinal_def computeMetadata_def
      buildResult_def sample_url failIfMissing_def fs_eval coverMapping_index coverRecord_def
      stagedFs_def committedFs_def isWithin_def SLASH_js PNG_SIGNATURE_def
      fun_eq_iff)

lemma sample_paths2:
  "path_dirname (js ''/data/temp'') = js ''/data''"
  "path_dirname (js ''/data/temp.tmp-0a1b2c3d4e5f'') = js ''/data''"
  "ancestors (js ''/data'') = [js ''/'']"
  "safeJoin (js ''/app'') (js ''/data/media'') (js ''../nothing'') = Inl OutsideStorageRoot"
  "dropWhile (\<lambda>c. c = SLASH) (js ''../nothing'') = js ''../nothing''"
  "path_resolve (js ''/app'') [js ''/data/media'', js ''../nothing''] = js ''/data/nothing''"
  by (simp_all add: path_eval upt_rec[of _ "Suc _"] del: js_eq_iff js_append js_append_lit js_Nil)

lemma missingMapping_index: "cm_tempIndex missingMapping = 5"
  by (simp add: missingMapping_def)

subsection \<open>Atomic write\<close>

text \<open>
  Claim C5, as the code has it. \<open>writeFileAtomic\<close> has no cleanup: when the rename
  fails after the temporary file was written, the error returned is the error of
  the rename, the temporary file stays on disk with the buffer in it, and the
  target is as it was.
\<close>

theorem writeFileAtomic_leaves_temp_on_rename_failure:
  "ensureDir ft s (path_dirname t) = Inr s1 \<and>
   fs_writeFile ft s1 (t @ js ''.tmp-'' @ rnd) b = Inr s2 \<and>
   fs_rename ft s2 (t @ js ''.tmp-'' @ rnd) t = Inl err
   \<longrightarrow>
     writeFileAtomic ft rnd s t b = (Inl err, s2) \<and>
     s2 (t @ js ''.tmp-'' @ rnd) = Some (File b) \<and>
     s2 t = s1 t"
proof
  assume a: "ensureDir ft s (path_dirname t) = Inr s1 \<and>
   fs_writeFile ft s1 (t @ js ''.tmp-'' @ rnd) b = Inr s2 \<and>
   fs_rename ft s2 (t @ js ''.tmp-'' @ rnd) t = Inl err"
  then have s2: "s2 = s1(t @ js ''.tmp-'' @ rnd \<mapsto> File b)"
    using fs_writeFile_result by blast
  have ne: "t @ js ''.tmp-'' @ rnd \<noteq> t"
    by (simp add: js_def)
  show "writeFileAtomic ft rnd s t b = (Inl err, s2) \<and>
     s2 (t @ js ''.tmp-'' @ rnd) = Some (File b) \<and>
     s2 t = s1 t"
    using a ne by (simp add: writeFileAtomic_def Let_def s2 js_def)
qed

theorem writeFileAtomic_leaves_temp_on_rename_failure_witness:
  "writeFileAtomic (\<lambda>op. False) (js ''0a1b2c3d4e5f'') stagedFs (js ''/data/temp'') [1] =
     (Inl EISDIR, stagedFs(js ''/data/temp.tmp-0a1b2c3d4e5f'' \<mapsto> File [1])) \<and>
   (stagedFs(js ''/data/temp.tmp-0a1b2c3d4e5f'' \<mapsto> File [1])) (js ''/data/temp.tmp-0a1b2c3d4e5f'') =
     Some (File [1])"
proof -
  let ?tmp = "js ''/data/temp'' @ js ''.tmp-'' @ js ''0a1b2c3d4e5f''"
  have h: "ensureDir (\<lambda>op. False) stagedFs (path_dirname (js ''/data/temp'')) = Inr stagedFs \<and>
    fs_writeFile (\<lambda>op. False) stagedFs ?tmp [1] = Inr (stagedFs(?tmp \<mapsto> File [1])) \<and>
    fs_rename (\<lambda>op. False) (stagedFs(?tmp \<mapsto> File [1])) ?tmp (js ''/data/temp'') = Inl EISDIR"
    by (auto simp: ensureDir_def fs_mkdirp_def fs_writeFile_def fs_rename_def sample_paths2
        stagedFs_def fun_eq_iff)
  from writeFileAtomic_leaves_temp_on_rename_failure[rule_format, OF h]
  show ?thesis by simp
qed

text \<open>
  The claim as stated fails: writing onto a path that is a directory fails at the
  rename with \<open>EISDIR\<close>, and the temporary file, absent before, is there afterwards.
\<close>

theorem writeFileAtomic_no_cleanup:
  "fst (writeFileAtomic (\<lambda>op. False) (js ''0a1b2c3d4e5f'') stagedFs (js ''/data/temp'') [1]) =
     Inl EISDIR \<and>
   snd (writeFileAtomic (\<lambda>op. False) (js ''0a1b2c3d4e5f'') stagedFs (js ''/data/temp'') [1])
     (js ''/data/temp.tmp-0a1b2c3d4e5f'') = Some (File [1]) \<and>
   stagedFs (js ''/data/temp.tmp-0a1b2c3d4e5f'') = None"
  by (simp add: writeFileAtomic_def ensureDir_def fs_mkdirp_def fs_writeFile_def fs_rename_def
      sample_paths2 stagedFs_def Let_def)

subsection \<open>Commit with a missing temp entry\<close>

text \<open>
  Claim C6, as the code has it. The test is \<open>options?.failIfMissing\<close>: a mapping
  whose temp file is missing makes the commit fail only when the caller sets
  \<open>failIfMissing\<close> to true. When it is false or left out, the mapping is skipped
  with a warning and the remaining mappings are processed.
\<close>

theorem missing_temp_entry:
  "\<not> pathExists (se_faults env) s (path_join [dir, showNat (cm_tempIndex m)])
   \<longrightarrow>
     failIfMissing options = (\<exists>opts. options = Some opts \<and> co_failIfMissing opts = Some True) \<and>
     commitMappings env dir finalBaseAbs options k s (m # rest) results =
       (if failIfMissing options
        then (Inl (TempFileMissing (cm_tempIndex m)), s, [])
        else (case commitMappings env dir finalBaseAbs options (Suc k) s rest results of
                (res, s2, lg2) \<Rightarrow> (res, s2, WarnMissing (cm_tempIndex m) # lg2)))"
  by (auto simp: commitOne_def failIfMissing_def Let_def split: option.splits prod.splits)

theorem missing_temp_entry_witness:
  "commitMappings sampleStorage (js ''/data/temp/t1'') (js ''/data/media/books/1'')
     (Some strictOptions) 0 stagedFs [missingMapping, coverMapping] [] =
     (Inl (TempFileMissing 5), stagedFs, []) \<and>
   commitMappings sampleStorage (js ''/data/temp/t1'') (js ''/data/media/books/1'')
     None 0 stagedFs [missingMapping] [] =
     (Inr [], stagedFs, [WarnMissing 5])"
proof -
  have h: "\<not> pathExists (se_faults sampleStorage) stagedFs
      (path_join [js ''/data/temp/t1'', showNat (cm_tempIndex missingMapping)])"
    by (simp add: pathExists_def missingMapping_index sample_paths stagedFs_def)
  have f1: "failIfMissing (Some strictOptions)"
    by (simp add: failIfMissing_def strictOptions_def)
  have f2: "\<not> failIfMissing None"
    by (simp add: failIfMissing_def)
  from missing_temp_entry[rule_format, OF h, of "Some strictOptions"
      "js ''/data/media/books/1''" 0 "[coverMapping]" "[]"] f1
  have a: "commitMappings sampleStorage (js ''/data/temp/t1'') (js ''/data/media/books/1'')
     (Some strictOptions) 0 stagedFs [missingMapping, coverMapping] [] =
     (Inl (TempFileMissing 5), stagedFs, [])"
    by (simp add: missingMapping_index)
  from missing_temp_entry[rule_format, OF h, of None
      "js ''/data/media/books/1''" 0 "[]" "[]"] f2
  have b: "commitMappings sampleStorage (js ''/data/temp/t1'') (js ''/data/media/books/1'')
     None 0 stagedFs [missingMapping] [] = (Inr [], stagedFs, [WarnMissing 5])"
    by (simp add: missingMapping_index)
  show ?thesis using a b by (rule conjI)
qed

text \<open>
  The claim as stated fails: with the options left out, a commit whose only
  mapping is missing succeeds with no records and a warning.
\<close>

theorem missing_entry_skipped_when_option_omitted:
  "fst (commitTempToFinal sampleStorage stagedFs (js ''t1'') (js ''books/1'') [missingMapping] None) =
     Inr [] \<and>
   snd (snd (commitTempToFinal sampleStorage stagedFs (js ''t1'') (js ''books/1'') [missingMapping] None)) =
     [WarnMissing 5, InfoCommitted 0 (js ''t1'') (js ''books/1'')]"
  by (simp add: commitTempToFinal_def commitOne_def failIfMissing_def fs_eval missingMapping_index
      stagedFs_def)

subsection \<open>Round trip\<close>

text \<open>
  Claim C7. Stage one file with content \<open>b\<close>, then commit it with no hook
  installed; if both calls succeed and the final path is not inside the session
  directory (which is removed at the end), the final path holds exactly \<open>b\<close>, and
  the record carries the SHA-256 digest and the size of those bytes, read back from
  the final path after the write.
\<close>

theorem stage_then_commit_roundtrip:
  "saveTempFiles env s0 [f] = (Inr (tempId, recs), s1, lg1) \<and> mf_buffer f = Some b \<and>
   se_processHook env = None \<and> cm_tempIndex m = 0 \<and>
   commitTempToFinal env s1 tempId targetBase [m] options = (Inr [r], s2, lg2) \<and>
   sessionDir env tempId = Inr dir \<and> finalPath env targetBase m = Inr p \<and> \<not> isWithin dir p
   \<longrightarrow>
     s2 p = Some (File b) \<and> cr_sha256 r = se_sha256 env b \<and> cr_size_bytes r = length b"
proof
  assume a: "saveTempFiles env s0 [f] = (Inr (tempId, recs), s1, lg1) \<and> mf_buffer f = Some b \<and>
   se_processHook env = None \<and> cm_tempIndex m = 0 \<and>
   commitTempToFinal env s1 tempId targetBase [m] options = (Inr [r], s2, lg2) \<and>
   sessionDir env tempId = Inr dir \<and> finalPath env targetBase m = Inr p \<and> \<not> isWithin dir p"
  then have staged: "s1 (path_join [dir, showNat 0]) = Some (File b)"
    using saveTempFiles_single[of env s0 f tempId recs s1 lg1 b] by auto
  from a have dir: "safeJoin (se_cwd env) (TEMP_ROOT env) tempId = Inr dir"
    by (simp add: sessionDir_def)
  from a obtain fb where
    fb: "safeJoin (se_cwd env) (FINAL_ROOT env) (dropWhile (\<lambda>c. c = SLASH) targetBase) = Inr fb"
    and p: "safeJoin (se_cwd env) fb (finalFilename m) = Inr p"
    by (auto simp: finalPath_def split: sum.splits)
  from a dir fb obtain sb sc lg where
    mk: "ensureDir (se_faults env) s1 fb = Inr sb"
    and cm: "commitMappings env dir fb options 0 sb [m] [] = (Inr [r], sc, lg)"
    and s2: "s2 = safeRm (se_faults env) sc dir"
    by (auto simp: commitTempToFinal_def Let_def split: if_splits sum.splits prod.splits)
  from cm obtain lg' where one: "commitOne env dir fb options 0 sb m = (Inr (Some r), sc, lg')"
    by (auto split: sum.splits prod.splits option.splits)
  have "sb (path_join [dir, showNat 0]) = Some (File b)"
    using fs_mkdirp_preserves_files[OF mk[unfolded ensureDir_def] staged] .
  then have "sb (path_join [dir, showNat (cm_tempIndex m)]) = Some (File b)"
    using a by simp
  from commitOne_no_hook[OF one _ this p] a
  have "sc p = Some (File b) \<and> cr_sha256 r = se_sha256 env b \<and> cr_size_bytes r = length b"
    by simp
  moreover have "s2 p = sc p"
    unfolding s2 using a by (simp add: safeRm_outside)
  ultimately show "s2 p = Some (File b) \<and> cr_sha256 r = se_sha256 env b \<and> cr_size_bytes r = length b"
    by simp
qed

theorem stage_then_commit_roundtrip_witness:
  "committedFs (js ''/data/media/books/1/cover.webp'') = Some (File PNG_SIGNATURE) \<and>
   cr_sha256 coverRecord = se_sha256 sampleStorage PNG_SIGNATURE \<and>
   cr_size_bytes coverRecord = length PNG_SIGNATURE"
proof -
  have h: "saveTempFiles sampleStorage Map.empty [evilPng] =
      (Inr (js ''t1'', [\<lparr>tf_index = 0, tf_originalName = js ''evil.txt'', tf_mime = js ''text/plain'',
        tf_size = Some 8, tf_tempPath = js ''/data/temp/t1/0''\<rparr>]),
       stagedFs, [InfoSaved 1 (js ''t1'')]) \<and>
    mf_buffer evilPng = Some PNG_SIGNATURE \<and>
    se_processHook sampleStorage = None \<and> cm_tempIndex coverMapping = 0 \<and>
    commitTempToFinal sampleStorage stagedFs (js ''t1'') (js ''books/1'') [coverMapping] None =
      (Inr [coverRecord], committedFs, [InfoCommitted 1 (js ''t1'') (js ''books/1'')]) \<and>
    sessionDir sampleStorage (js ''t1'') = Inr (js ''/data/temp/t1'') \<and>
    finalPath sampleStorage (js ''books/1'') coverMapping = Inr (js ''/data/media/books/1/cover.webp'') \<and>
    \<not> isWithin (js ''/data/temp/t1'') (js ''/data/media/books/1/cover.webp'')"
    using staging_sample commit_sample
    by (simp add: evilPng_def sample_fields coverMapping_index sessionDir_def finalPath_def
        sample_roots sample_paths sample_names isWithin_def SLASH_js)
  show ?thesis
    by (rule stage_then_commit_roundtrip[rule_format, OF h])
qed

subsection \<open>Deleting a path\<close>

text \<open>
  Claim C9, as the code has it. For a relative path that resolves within the final
  root, \<open>deletePath\<close> succeeds whatever is on disk, a second call succeeds too
  and leaves the disk as the first left it, and when nothing exists at or below the
  path the disk is unchanged. A path that resolves outside the root is refused
  with the path error, on every call, and the disk is untouched.
\<close>

theorem deletePath_idempotent_within_root:
  "(safeJoin (se_cwd env) (FINAL_ROOT env) (dropWhile (\<lambda>c. c = SLASH) rel) = Inr p
    \<longrightarrow>
      fst (deletePath env s rel) = Inr True \<and>
      fst (deletePath env (fst (snd (deletePath env s rel))) rel) = Inr True \<and>
      fst (snd (deletePath env (fst (snd (deletePath env s rel))) rel)) = fst (snd (deletePath env s rel)) \<and>
      ((\<forall>q. isWithin p q \<longrightarrow> s q = None) \<longrightarrow> fst (snd (deletePath env s rel)) = s)) \<and>
   (safeJoin (se_cwd env) (FINAL_ROOT env) (dropWhile (\<lambda>c. c = SLASH) rel) = Inl err
    \<longrightarrow> deletePath env s rel = (Inl (PathError err), s, []))"
  by (simp add: deletePath_def Let_def safeRm_idem safeRm_absent)

theorem deletePath_idempotent_within_root_witness:
  "fst (deletePath sampleStorage stagedFs (js ''books/1'')) = Inr True \<and>
   fst (snd (deletePath sampleStorage stagedFs (js ''books/1''))) = stagedFs \<and>
   stagedFs (js ''/data/media/books/1'') = None"
proof -
  have h: "safeJoin (se_cwd sampleStorage) (FINAL_ROOT sampleStorage)
      (dropWhile (\<lambda>c. c = SLASH) (js ''books/1'')) = Inr (js ''/data/media/books/1'')"
    by (simp add: sample_fields sample_roots sample_paths)
  have n: "\<forall>q. isWithin (js ''/data/media/books/1'') q \<longrightarrow> stagedFs q = None"
    by (auto simp: isWithin_def stagedFs_def SLASH_js)
  note t = deletePath_idempotent_within_root[of sampleStorage "js ''books/1''"
      "js ''/data/media/books/1''" stagedFs OutsideStorageRoot]
  from t h n have "fst (deletePath sampleStorage stagedFs (js ''books/1'')) = Inr True \<and>
    fst (snd (deletePath sampleStorage stagedFs (js ''books/1''))) = stagedFs"
    by blast
  moreover have "stagedFs (js ''/data/media/books/1'') = None"
    by (simp add: stagedFs_def)
  ultimately show ?thesis by simp
qed

text \<open>
  The claim as stated fails for a relative path that leaves the root: nothing
  exists at \<open>../nothing\<close>, and \<open>deletePath\<close> answers with an error.
\<close>

theorem deletePath_rejects_path_outside_root:
  "deletePath sampleStorage stagedFs (js ''../nothing'') =
     (Inl (PathError OutsideStorageRoot), stagedFs, []) \<and>
   path_resolve (js ''/app'') [js ''/data/media'', js ''../nothing''] = js ''/data/nothing'' \<and>
   stagedFs (js ''/data/nothing'') = None"
  by (simp add: deletePath_def sample_fields sample_roots sample_paths2 stagedFs_def)

end
